theory Spec2Isabelle
  imports Complex_Main "HOL-Library.AList"
begin

section \<open>JavaScript values and the built-ins the indexer calls\<close>

text \<open>
  The indexer (\<^verbatim>\<open>src/unnamed/part_000\<close>, the module \<^verbatim>\<open>@/lib/indexer\<close>) reads
  line-delimited JSON and sniffs the shape of every record at run time, so the records
  are modelled as untyped JSON values. A JavaScript value that may be \<^verbatim>\<open>undefined\<close> is a
  \<open>json option\<close> with \<open>None\<close> for \<^verbatim>\<open>undefined\<close>; \<^verbatim>\<open>null\<close> is \<open>JNull\<close>.
  A string is the list of the bytes of its UTF-8 encoding. Numbers carry their numeric
  value (\<open>+0\<close> and \<open>-0\<close> are the same number, as they are for \<^verbatim>\<open>===\<close>; a literal so
  large that \<^verbatim>\<open>JSON.parse\<close> reads it as \<^verbatim>\<open>Infinity\<close> has no value here). An object is the
  list of its own properties in insertion order, with distinct keys; none of the
  property names the indexer reads is inherited from a prototype.
\<close>

datatype json =
    JNull
  | JBool bool
  | JNum rat
  | JStr string
  | JArr "json list"
  | JObj "(string \<times> json) list"

text \<open>Property access \<^verbatim>\<open>v.k\<close> on a value that is not \<^verbatim>\<open>null\<close>; on a primitive or an array
  the names used here are \<^verbatim>\<open>undefined\<close>. With \<open>JNull\<close> it is the optional chain \<^verbatim>\<open>v?.k\<close>
  (the source never reads a property of \<^verbatim>\<open>null\<close> without it).\<close>

fun get :: "json \<Rightarrow> string \<Rightarrow> json option" where
  "get (JObj kvs) k = map_of kvs k"
| "get _ k = None"

text \<open>The optional chain \<^verbatim>\<open>v?.k\<close> on a value that may be \<^verbatim>\<open>undefined\<close>.\<close>

definition getOpt :: "json option \<Rightarrow> string \<Rightarrow> json option" where
  "getOpt v k = (case v of None \<Rightarrow> None | Some x \<Rightarrow> get x k)"

text \<open>\<^verbatim>\<open>v ?? d\<close>: the default replaces \<^verbatim>\<open>undefined\<close> and \<^verbatim>\<open>null\<close> only.\<close>

fun coalesce :: "json option \<Rightarrow> json \<Rightarrow> json" where
  "coalesce None d = d"
| "coalesce (Some JNull) d = d"
| "coalesce (Some v) d = v"

text \<open>\<^verbatim>\<open>typeof v === "string" ? v : null\<close>.\<close>

fun asString :: "json option \<Rightarrow> string option" where
  "asString (Some (JStr s)) = Some s"
| "asString _ = None"

text \<open>Truthiness of a parsed JSON value (\<^verbatim>\<open>if (!obj) continue\<close>) and of a
  \<^verbatim>\<open>string | null\<close> (\<^verbatim>\<open>if (ts)\<close>, \<^verbatim>\<open>if (out)\<close>, \<^verbatim>\<open>if (callId)\<close>).\<close>

fun truthy :: "json \<Rightarrow> bool" where
  "truthy JNull = False"
| "truthy (JBool b) = b"
| "truthy (JNum n) = (n \<noteq> 0)"
| "truthy (JStr s) = (s \<noteq> [])"
| "truthy (JArr xs) = True"
| "truthy (JObj kvs) = True"

fun truthyStr :: "string option \<Rightarrow> bool" where
  "truthyStr None = False"
| "truthyStr (Some s) = (s \<noteq> [])"

text \<open>
  The built-ins of the JavaScript runtime are not code of the repository; the model
  takes them as parameters:
  \<^item> \<open>JSON_parse\<close>: \<^verbatim>\<open>JSON.parse\<close>, \<open>None\<close> when it throws;
  \<^item> \<open>Date_parse\<close>: \<^verbatim>\<open>new Date(s).getTime()\<close> in milliseconds, \<open>None\<close> for \<^verbatim>\<open>NaN\<close>;
  \<^item> \<open>toISOString\<close>: \<^verbatim>\<open>Date.prototype.toISOString\<close> of a valid time value.
\<close>

record builtins =
  JSON_parse :: "string \<Rightarrow> json option"
  Date_parse :: "string \<Rightarrow> int option"
  toISOString :: "int \<Rightarrow> string"

text \<open>\<^verbatim>\<open>safeJsonParse\<close>: the parsed value, \<^verbatim>\<open>null\<close> when parsing throws.\<close>

definition safeJsonParse :: "builtins \<Rightarrow> string \<Rightarrow> json" where
  "safeJsonParse js line = (case JSON_parse js line of None \<Rightarrow> JNull | Some v \<Rightarrow> v)"

definition toIso :: "builtins \<Rightarrow> json option \<Rightarrow> string option" where
  "toIso js ts =
     (case asString ts of
        None \<Rightarrow> None
      | Some s \<Rightarrow>
          (case Date_parse js s of
             None \<Rightarrow> None
           | Some d \<Rightarrow> Some (toISOString js d)))"

definition dayKeyFromIso :: "string option \<Rightarrow> string" where
  "dayKeyFromIso isoStr = (if \<not> truthyStr isoStr then ''unknown'' else take 10 (the isoStr))"

text \<open>\<^verbatim>\<open>a ?? b\<close> on \<^verbatim>\<open>string | null\<close>.\<close>

fun orElse :: "string option \<Rightarrow> string option \<Rightarrow> string option" where
  "orElse None b = b"
| "orElse (Some a) b = Some a"

subsection \<open>String helpers\<close>

text \<open>\<^verbatim>\<open>parts.join("\n")\<close>.\<close>

fun joinNl :: "string list \<Rightarrow> string" where
  "joinNl [] = []"
| "joinNl [p] = p"
| "joinNl (p # q # ps) = p @ [CHR 0x0A] @ joinNl (q # ps)"

text \<open>
  \<^verbatim>\<open>String.prototype.trim\<close> removes the white space and the line terminators of
  ECMAScript at both ends. In UTF-8 these are the single bytes 09 to 0D and 20, the
  two bytes of U+00A0, and the three bytes of U+1680, U+2000 to U+200A, U+2028,
  U+2029, U+202F, U+205F, U+3000 and U+FEFF.
\<close>

definition asciiSpace :: "char \<Rightarrow> bool" where
  "asciiSpace c = ((of_char c :: nat) \<in> {0x09, 0x0A, 0x0B, 0x0C, 0x0D, 0x20})"

definition space2 :: "char \<Rightarrow> char \<Rightarrow> bool" where
  "space2 a b = (a = CHR 0xC2 \<and> b = CHR 0xA0)"

definition space3 :: "char \<Rightarrow> char \<Rightarrow> char \<Rightarrow> bool" where
  "space3 a b c =
     (a = CHR 0xE1 \<and> b = CHR 0x9A \<and> c = CHR 0x80
      \<or> a = CHR 0xE2 \<and> b = CHR 0x80
          \<and> (0x80 \<le> (of_char c :: nat) \<and> (of_char c :: nat) \<le> 0x8A
             \<or> c = CHR 0xA8 \<or> c = CHR 0xA9 \<or> c = CHR 0xAF)
      \<or> a = CHR 0xE2 \<and> b = CHR 0x81 \<and> c = CHR 0x9F
      \<or> a = CHR 0xE3 \<and> b = CHR 0x80 \<and> c = CHR 0x80
      \<or> a = CHR 0xEF \<and> b = CHR 0xBB \<and> c = CHR 0xBF)"

text \<open>White space is removed from the front of a string; the two tests say which pairs
  and triples of bytes are white space, so that the same function serves the string
  read backwards.\<close>

fun strip ::
    "(char \<Rightarrow> char \<Rightarrow> bool) \<Rightarrow> (char \<Rightarrow> char \<Rightarrow> char \<Rightarrow> bool) \<Rightarrow> string \<Rightarrow> string" where
  "strip p2 p3 (a # b # c # s) =
     (if asciiSpace a then strip p2 p3 (b # c # s)
      else if p2 a b then strip p2 p3 (c # s)
      else if p3 a b c then strip p2 p3 s
      else a # b # c # s)"
| "strip p2 p3 [a, b] =
     (if asciiSpace a then strip p2 p3 [b]
      else if p2 a b then []
      else [a, b])"
| "strip p2 p3 [a] = (if asciiSpace a then [] else [a])"
| "strip p2 p3 [] = []"

definition trim :: "string \<Rightarrow> string" where
  "trim s =
     rev (strip (\<lambda>a b. space2 b a) (\<lambda>a b c. space3 c b a) (rev (strip space2 space3 s)))"

text \<open>\<^verbatim>\<open>out.startsWith(p)\<close>, and the test of the regular expression
  \<^verbatim>\<open>/error|exception|traceback/i\<close>: one of the three words occurs in the string, letters
  compared without case.\<close>

fun startsWith :: "string \<Rightarrow> string \<Rightarrow> bool" where
  "startsWith s [] = True"
| "startsWith [] (p # ps) = False"
| "startsWith (c # cs) (p # ps) = (c = p \<and> startsWith cs ps)"

fun containsStr :: "string \<Rightarrow> string \<Rightarrow> bool" where
  "containsStr [] p = (p = [])"
| "containsStr (c # cs) p = (startsWith (c # cs) p \<or> containsStr cs p)"

definition lowerChar :: "char \<Rightarrow> char" where
  "lowerChar c =
     (let n = (of_char c :: nat) in if 65 \<le> n \<and> n \<le> 90 then char_of (n + 32) else c)"

definition errorPattern :: "string \<Rightarrow> bool" where
  "errorPattern out =
     (let l = map lowerChar out
      in containsStr l ''error'' \<or> containsStr l ''exception'' \<or> containsStr l ''traceback'')"

section \<open>The File Summarizer\<close>

text \<open>The aggregates of a snapshot come first, so that \<open>messages\<close>, \<open>toolCalls\<close> and
  \<open>errors\<close> without a qualifier are the fields of a session summary.\<close>

record DailyAgg =
  sessions :: nat
  messages :: nat
  toolCalls :: nat
  errors :: nat

record Totals =
  files :: nat
  sessions :: nat
  messages :: nat
  toolCalls :: nat
  errors :: nat

record SessionSummary =
  id' :: json
  file' :: string
  startedAt :: "string option"
  endedAt :: "string option"
  durationSec :: "int option"
  cwd :: "string option"
  originator :: "string option"
  cliVersion :: "string option"
  messages :: nat
  toolCalls :: nat
  errors :: nat

text \<open>\<^verbatim>\<open>summarizeFromMeta\<close>. The \<^verbatim>\<open>id\<close> is whatever JSON value the record carries
  (\<^verbatim>\<open>payload?.id ?? sessionId\<close> does not test its type).\<close>

definition summarizeFromMeta :: "builtins \<Rightarrow> string \<Rightarrow> string \<Rightarrow> json \<Rightarrow> SessionSummary" where
  "summarizeFromMeta js sid file meta =
     (let payload = coalesce (get meta ''payload'') (JObj [])
      in \<lparr> id' = coalesce (get payload ''id'') (JStr sid),
           file' = file,
           startedAt = orElse (toIso js (get meta ''timestamp'')) (toIso js (get payload ''timestamp'')),
           endedAt = None,
           durationSec = None,
           cwd = asString (get payload ''cwd''),
           originator = asString (get payload ''originator''),
           cliVersion = asString (get payload ''cli_version''),
           messages = 0,
           toolCalls = 0,
           errors = 0 \<rparr>)"

text \<open>\<^verbatim>\<open>extractMessageText\<close>: the three branches of the loop all push \<^verbatim>\<open>c.text\<close>.\<close>

definition fragment :: "json \<Rightarrow> string list" where
  "fragment c =
     (if get c ''type'' = Some (JStr ''input_text'') \<and> asString (get c ''text'') \<noteq> None
        then [the (asString (get c ''text''))]
      else if get c ''type'' = Some (JStr ''output_text'') \<and> asString (get c ''text'') \<noteq> None
        then [the (asString (get c ''text''))]
      else if asString (get c ''text'') \<noteq> None
        then [the (asString (get c ''text''))]
      else [])"

definition extractMessageText :: "json \<Rightarrow> string option" where
  "extractMessageText payload =
     (case get payload ''content'' of
        Some (JArr content) \<Rightarrow>
          (let txt = trim (joinNl (concat (map fragment content)))
           in if txt \<noteq> [] then Some txt else None)
      | _ \<Rightarrow> None)"

text \<open>
  The state of the loop of \<^verbatim>\<open>buildFileIndex\<close>: the summary, the first and last
  timestamps seen, the tool histogram (\<^verbatim>\<open>Record<string, number>\<close>, an association list in
  insertion order) and the call-id map.
\<close>

record scan =
  summary :: SessionSummary
  firstTs :: "string option"
  lastTs :: "string option"
  tools :: "(string \<times> nat) list"
  callIdToToolName :: "string \<Rightarrow> string option"

text \<open>\<^verbatim>\<open>target[k] = (target[k] ?? 0) + v\<close> on a \<^verbatim>\<open>Record<string, number>\<close>. The key is
  taken not to be a name that a plain object inherits (\<^verbatim>\<open>constructor\<close>, \<^verbatim>\<open>toString\<close>,
  \<^verbatim>\<open>__proto__\<close> and the like), for which \<^verbatim>\<open>target[k]\<close> is not a number. The list keeps
  the order of insertion; JavaScript enumerates keys that are array indices first,
  which changes the order of the entries and none of the values.\<close>

definition addCount :: "(string \<times> nat) list \<Rightarrow> string \<Rightarrow> nat \<Rightarrow> (string \<times> nat) list" where
  "addCount target k v =
     AList.update k ((case map_of target k of None \<Rightarrow> 0 | Some c \<Rightarrow> c) + v) target"

definition initialScan :: "string \<Rightarrow> string \<Rightarrow> scan" where
  "initialScan sid file =
     \<lparr> summary = \<lparr> id' = JStr sid, file' = file, startedAt = None, endedAt = None,
                   durationSec = None, cwd = None, originator = None, cliVersion = None,
                   messages = 0, toolCalls = 0, errors = 0 \<rparr>,
       firstTs = None, lastTs = None, tools = [], callIdToToolName = (\<lambda>k. None) \<rparr>"

text \<open>Lines 148 to 152: the first and last parseable timestamps.\<close>

definition noteTimestamp :: "builtins \<Rightarrow> json \<Rightarrow> scan \<Rightarrow> scan" where
  "noteTimestamp js obj s =
     (let ts = toIso js (get obj ''timestamp'')
      in if truthyStr ts
         then s\<lparr> firstTs := (if \<not> truthyStr (firstTs s) then ts else firstTs s), lastTs := ts \<rparr>
         else s)"

text \<open>Lines 154 to 157: a \<^verbatim>\<open>session_meta\<close> record.\<close>

definition onSessionMeta :: "builtins \<Rightarrow> string \<Rightarrow> string \<Rightarrow> json \<Rightarrow> scan \<Rightarrow> scan" where
  "onSessionMeta js sid file obj s =
     (if get obj ''type'' = Some (JStr ''session_meta'')
      then (let sm = summarizeFromMeta js sid file obj
            in s\<lparr> summary := sm,
                   firstTs := (if \<not> truthyStr (firstTs s) \<and> truthyStr (startedAt sm)
                               then startedAt sm else firstTs s) \<rparr>)
      else s)"

text \<open>Lines 159 to 162: an \<^verbatim>\<open>event_msg\<close> record.\<close>

definition onEventMsg :: "json \<Rightarrow> scan \<Rightarrow> scan" where
  "onEventMsg obj s =
     (if get obj ''type'' = Some (JStr ''event_msg'')
           \<and> getOpt (get obj ''payload'') ''type'' = Some (JStr ''turn_aborted'')
      then s\<lparr> summary := (summary s)\<lparr> errors := errors (summary s) + 1 \<rparr> \<rparr>
      else s)"

text \<open>Lines 176 to 196: the two error checks on the output of a tool call. Each is an
  \<^verbatim>\<open>if\<close> of its own.\<close>

definition exitCodeError :: "builtins \<Rightarrow> string \<Rightarrow> bool" where
  "exitCodeError js out =
     (startsWith out ''{'' \<and>
      (case JSON_parse js out of
         None \<Rightarrow> False
       | Some parsed \<Rightarrow>
           (case getOpt (get parsed ''metadata'') ''exit_code'' of
              Some (JNum exitCode) \<Rightarrow> exitCode \<noteq> 0
            | _ \<Rightarrow> False)))"

definition outputErrors :: "builtins \<Rightarrow> json \<Rightarrow> nat" where
  "outputErrors js payload =
     (let out = asString (get payload ''output'')
      in if truthyStr out
         then (if errorPattern (the out) then 1 else 0)
              + (if exitCodeError js (the out) then 1 else 0)
         else 0)"

text \<open>Lines 164 to 197: a \<^verbatim>\<open>response_item\<close> record.\<close>

definition onResponseItem :: "builtins \<Rightarrow> json \<Rightarrow> scan \<Rightarrow> scan" where
  "onResponseItem js obj s =
     (if get obj ''type'' = Some (JStr ''response_item'')
      then (let payload = coalesce (get obj ''payload'') (JObj []);
                pt = get payload ''type''
            in if pt = Some (JStr ''message'')
               then (let role = get payload ''role''
                     in if role = Some (JStr ''user'') \<or> role = Some (JStr ''assistant'')
                        then s\<lparr> summary := (summary s)\<lparr> messages := messages (summary s) + 1 \<rparr> \<rparr>
                        else s)
               else if pt = Some (JStr ''function_call'') \<or> pt = Some (JStr ''custom_tool_call'')
               then (let name = (case asString (get payload ''name'') of
                                   Some n \<Rightarrow> n | None \<Rightarrow> ''unknown'');
                         callId = asString (get payload ''call_id'')
                     in s\<lparr> summary := (summary s)\<lparr> toolCalls := toolCalls (summary s) + 1 \<rparr>,
                            tools := addCount (tools s) name 1,
                            callIdToToolName :=
                              (if truthyStr callId
                               then (callIdToToolName s)(the callId \<mapsto> name)
                               else callIdToToolName s) \<rparr>)
               else if pt = Some (JStr ''function_call_output'')
                       \<or> pt = Some (JStr ''custom_tool_call_output'')
               then s\<lparr> summary := (summary s)\<lparr> errors := errors (summary s) + outputErrors js payload \<rparr> \<rparr>
               else s)
      else s)"

text \<open>The body of the \<^verbatim>\<open>for await\<close> loop for one line (lines 146 to 197).\<close>

definition scanLine :: "builtins \<Rightarrow> string \<Rightarrow> string \<Rightarrow> scan \<Rightarrow> string \<Rightarrow> scan" where
  "scanLine js sid file s line =
     (let obj = safeJsonParse js line
      in if \<not> truthy obj then s
         else onResponseItem js obj
                (onEventMsg obj
                  (onSessionMeta js sid file obj
                    (noteTimestamp js obj s))))"

text \<open>Lines 200 to 206, after the stream has ended.\<close>

definition finishSummary :: "builtins \<Rightarrow> scan \<Rightarrow> SessionSummary" where
  "finishSummary js s =
     (let started = orElse (startedAt (summary s)) (firstTs s);
          ended = lastTs s;
          sm = (summary s)\<lparr> startedAt := started, endedAt := ended \<rparr>
      in if truthyStr started \<and> truthyStr ended
         then (case (Date_parse js (the started), Date_parse js (the ended)) of
                 (Some a, Some b) \<Rightarrow>
                   if b \<ge> a then sm\<lparr> durationSec := Some ((b - a) div 1000) \<rparr> else sm
               | _ \<Rightarrow> sm)
         else sm)"

record FileIndex =
  sessionId :: string
  summary :: SessionSummary
  tools :: "(string \<times> nat) list"
  dailyKey :: string

text \<open>\<^verbatim>\<open>path.basename(file, ".jsonl")\<close> for a POSIX path that does not end in a slash
  (the paths come from joining a directory with the name of a regular file). A path
  that is the extension itself has the empty name; a last component that is the
  extension itself is kept whole.\<close>

fun endsWith :: "string \<Rightarrow> string \<Rightarrow> bool" where
  "endsWith s ext = startsWith (rev s) (rev ext)"

definition basename :: "string \<Rightarrow> string \<Rightarrow> string" where
  "basename p ext =
     (if p = ext then []
      else (let b = rev (takeWhile (\<lambda>c. c \<noteq> CHR ''/'') (rev p))
            in if b \<noteq> ext \<and> endsWith b ext then take (length b - length ext) b else b))"

text \<open>\<^verbatim>\<open>buildFileIndex\<close>, given the lines that the stream of the file yields.\<close>

definition buildFileIndex :: "builtins \<Rightarrow> string \<Rightarrow> string list \<Rightarrow> FileIndex" where
  "buildFileIndex js file lines =
     (let sid = basename file ''.jsonl'';
          s = foldl (scanLine js sid file) (initialScan sid file) lines;
          sm = finishSummary js s
      in \<lparr> sessionId = sid,
           summary = sm,
           tools = scan.tools s,
           dailyKey = dayKeyFromIso (orElse (startedAt sm) (firstTs s)) \<rparr>)"

section \<open>Persisted data and the file system\<close>

text \<open>\<^verbatim>\<open>fs.Stats\<close>, of which the indexer reads the modification time and the size.\<close>

record Stats =
  mtimeMs :: rat
  size' :: nat

text \<open>A manifest entry holds the fingerprint and the four fields of a file index.\<close>

record ManifestEntry = FileIndex +
  mtimeMs :: rat
  size' :: nat

record Manifest =
  version :: nat
  sessionsDir :: string
  files :: "(string \<times> ManifestEntry) list"

record IndexSnapshot =
  version :: nat
  generatedAt :: string
  sessionsDir :: string
  cacheDir :: string
  totals :: Totals
  tools :: "(string \<times> nat) list"
  daily :: "(string \<times> DailyAgg) list"
  sessions :: "SessionSummary list"

datatype kind = User | Assistant | Tool_call | Tool_output | Error | Other

text \<open>A timeline event; \<open>None\<close> is a property the object does not have.\<close>

record TimelineEvent =
  ts :: string
  kind :: kind
  name :: "string option"
  text' :: "string option"

record SessionTimelineResponse =
  summary :: SessionSummary
  truncated :: bool
  events :: "TimelineEvent list"

record CachedTimeline = SessionTimelineResponse +
  fileMtimeMs :: "rat option"
  fileSize :: "nat option"

text \<open>
  What the indexer sees of the world: the two configured directories, the files that
  \<^verbatim>\<open>listJsonlFiles\<close> finds under the sessions directory (in discovery order), what
  \<^verbatim>\<open>fsp.stat\<close> returns for a path (\<open>None\<close> when it throws), the lines of a file and
  whether the file can be opened for reading (when it cannot, the stream of
  \<^verbatim>\<open>fs.createReadStream\<close> fails and the loop over its lines throws), the three kinds of
  JSON file in the cache directory as \<^verbatim>\<open>readJsonFile\<close> returns them (\<open>None\<close> for \<^verbatim>\<open>null\<close>; a
  timeline cache file is named after the session id), whether \<^verbatim>\<open>ensureDir\<close> can create
  the cache directories, the clock, and the module variable \<^verbatim>\<open>inMemoryIndex\<close> of the
  process. Writing a JSON file and reading it back gives the value written, and a
  write into the cache directory succeeds once the directory is there.
\<close>

record world =
  getSessionsDir :: string
  getCacheDir :: string
  listJsonlFiles :: "string list"
  stat :: "string \<Rightarrow> Stats option"
  readLines :: "string \<Rightarrow> string list"
  readable :: "string \<Rightarrow> bool"
  manifestJson :: "Manifest option"
  indexJson :: "IndexSnapshot option"
  timelineJson :: "string \<Rightarrow> CachedTimeline option"
  cacheDirOk :: bool
  now :: int
  inMemoryIndex :: "IndexSnapshot option"

text \<open>What a rejected promise carries: the call that failed and its path.\<close>

datatype failure = StatFailed string | ReadFailed string | MkdirFailed string

section \<open>The Index Builder\<close>

definition INDEX_VERSION :: nat where
  "INDEX_VERSION = 1"

definition mergeDaily ::
    "(string \<times> DailyAgg) list \<Rightarrow> string \<Rightarrow> DailyAgg \<Rightarrow> (string \<times> DailyAgg) list" where
  "mergeDaily target key delta =
     (let cur = (case map_of target key of
                   None \<Rightarrow> \<lparr> DailyAgg.sessions = 0, messages = 0, toolCalls = 0, errors = 0 \<rparr>
                 | Some c \<Rightarrow> c)
      in AList.update key
           \<lparr> DailyAgg.sessions = DailyAgg.sessions cur + DailyAgg.sessions delta,
             messages = DailyAgg.messages cur + DailyAgg.messages delta,
             toolCalls = DailyAgg.toolCalls cur + DailyAgg.toolCalls delta,
             errors = DailyAgg.errors cur + DailyAgg.errors delta \<rparr>
           target)"

definition mergeTools :: "(string \<times> nat) list \<Rightarrow> (string \<times> nat) list \<Rightarrow> (string \<times> nat) list" where
  "mergeTools target add = foldl (\<lambda>t (k, v). addCount t k v) target add"

text \<open>
  The state of the loop over the discovered files (lines 247 to 286): the three
  accumulators, the \<^verbatim>\<open>files\<close> object of the manifest, and, for the claims about file
  reads, the list of the files handed to \<^verbatim>\<open>buildFileIndex\<close>.
\<close>

record pass =
  sessions :: "SessionSummary list"
  tools :: "(string \<times> nat) list"
  daily :: "(string \<times> DailyAgg) list"
  files :: "(string \<times> ManifestEntry) list"
  reads :: "string list"

text \<open>Lines 257 to 264 and 269 to 276: one file's result goes into the accumulators.\<close>

definition absorb :: "SessionSummary \<Rightarrow> (string \<times> nat) list \<Rightarrow> string \<Rightarrow> pass \<Rightarrow> pass" where
  "absorb sm hist key p =
     p\<lparr> pass.sessions := pass.sessions p @ [sm],
        pass.tools := mergeTools (pass.tools p) hist,
        pass.daily := mergeDaily (pass.daily p) key
                        \<lparr> DailyAgg.sessions = 1,
                          messages = SessionSummary.messages sm,
                          toolCalls = SessionSummary.toolCalls sm,
                          errors = SessionSummary.errors sm \<rparr> \<rparr>"

text \<open>\<^verbatim>\<open>prev && prev.mtimeMs === st.mtimeMs && prev.size === st.size\<close>.\<close>

definition reusable :: "ManifestEntry option \<Rightarrow> Stats \<Rightarrow> bool" where
  "reusable prev st =
     (case prev of
        None \<Rightarrow> False
      | Some e \<Rightarrow> ManifestEntry.mtimeMs e = Stats.mtimeMs st \<and> ManifestEntry.size' e = Stats.size' st)"

text \<open>The body of the loop for one file.\<close>

definition indexFile :: "builtins \<Rightarrow> world \<Rightarrow> pass \<Rightarrow> string \<Rightarrow> pass" where
  "indexFile js w p file =
     (case stat w file of
        None \<Rightarrow> p
      | Some st \<Rightarrow>
          (let prev = map_of (pass.files p) file
           in if reusable prev st
              then absorb (FileIndex.summary (the prev)) (FileIndex.tools (the prev))
                     (FileIndex.dailyKey (the prev)) p
              else (let built = buildFileIndex js file (readLines w file);
                        p' = absorb (FileIndex.summary built) (FileIndex.tools built)
                               (FileIndex.dailyKey built) p
                    in p'\<lparr> pass.files :=
                              AList.update file
                                \<lparr> sessionId = FileIndex.sessionId built,
                                  summary = FileIndex.summary built,
                                  tools = FileIndex.tools built,
                                  dailyKey = FileIndex.dailyKey built,
                                  mtimeMs = Stats.mtimeMs st,
                                  size' = Stats.size' st \<rparr>
                                (pass.files p'),
                            pass.reads := pass.reads p' @ [file] \<rparr>)))"

text \<open>\<^verbatim>\<open>buildOrUpdateIndex\<close>, when none of its calls throws: the snapshot, the files it
  read, and the world with the manifest and the snapshot written.\<close>

definition buildOrUpdateIndex :: "builtins \<Rightarrow> world \<Rightarrow> IndexSnapshot \<times> string list \<times> world" where
  "buildOrUpdateIndex js w =
     (let prevFiles =
            (case manifestJson w of
               None \<Rightarrow> []
             | Some prevManifest \<Rightarrow>
                 if Manifest.version prevManifest = INDEX_VERSION
                    \<and> Manifest.sessionsDir prevManifest = getSessionsDir w
                 then Manifest.files prevManifest else []);
          found = listJsonlFiles w;
          p = foldl (indexFile js w)
                \<lparr> pass.sessions = [], tools = [], daily = [], files = prevFiles, reads = [] \<rparr>
                found;
          manifest = \<lparr> Manifest.version = INDEX_VERSION,
                       sessionsDir = getSessionsDir w,
                       files = filter (\<lambda>(file, e). file \<in> set found) (pass.files p) \<rparr>;
          snapshot =
            \<lparr> IndexSnapshot.version = INDEX_VERSION,
              generatedAt = toISOString js (now w),
              sessionsDir = getSessionsDir w,
              cacheDir = getCacheDir w,
              totals =
                \<lparr> Totals.files = length found,
                  sessions = length (pass.sessions p),
                  messages = foldl (\<lambda>a s. a + SessionSummary.messages s) 0 (pass.sessions p),
                  toolCalls = foldl (\<lambda>a s. a + SessionSummary.toolCalls s) 0 (pass.sessions p),
                  errors = foldl (\<lambda>a s. a + SessionSummary.errors s) 0 (pass.sessions p) \<rparr>,
              tools = pass.tools p,
              daily = pass.daily p,
              sessions = pass.sessions p \<rparr>
      in (snapshot, pass.reads p, w\<lparr> manifestJson := Some manifest, indexJson := Some snapshot \<rparr>))"

section \<open>The Snapshot Cache\<close>

text \<open>
  What \<^verbatim>\<open>await buildOrUpdateIndex()\<close> yields. Two of its calls are not guarded:
  \<^verbatim>\<open>ensureDir\<close> (lines 229 and 230), before anything else, and the stream of a file that
  is summarised again (line 268, in \<^verbatim>\<open>buildFileIndex\<close>). The files that are summarised
  again are the \<open>reads\<close> of the run; the first of them that cannot be opened ends the
  run.
\<close>

definition awaitBuildOrUpdateIndex ::
    "builtins \<Rightarrow> world \<Rightarrow> failure + IndexSnapshot \<times> string list \<times> world" where
  "awaitBuildOrUpdateIndex js w =
     (if \<not> cacheDirOk w then Inl (MkdirFailed (getCacheDir w))
      else (case find (\<lambda>f. \<not> readable w f) (fst (snd (buildOrUpdateIndex js w))) of
              Some f \<Rightarrow> Inl (ReadFailed f)
            | None \<Rightarrow> Inr (buildOrUpdateIndex js w)))"

text \<open>
  \<^verbatim>\<open>getIndex\<close> for one caller at a time, so that no build is in flight when it is
  called: the snapshot in memory; else the snapshot file of the cache, if its version
  is the current one; else a fresh build, whose failure is the failure of \<^verbatim>\<open>getIndex\<close>.
  With the snapshot of the cache \<^verbatim>\<open>getIndex\<close> also starts a build that it does not
  await and whose failure it swallows; that build writes the manifest, the snapshot
  file and \<^verbatim>\<open>inMemoryIndex\<close> later, and the world returned here is the one before it.
\<close>

definition freshIndex :: "builtins \<Rightarrow> world \<Rightarrow> failure + IndexSnapshot \<times> world" where
  "freshIndex js w =
     (case awaitBuildOrUpdateIndex js w of
        Inl e \<Rightarrow> Inl e
      | Inr (fresh, rd, w') \<Rightarrow> Inr (fresh, w'\<lparr> inMemoryIndex := Some fresh \<rparr>))"

definition getIndex :: "builtins \<Rightarrow> world \<Rightarrow> failure + IndexSnapshot \<times> world" where
  "getIndex js w =
     (case inMemoryIndex w of
        Some i \<Rightarrow> Inr (i, w)
      | None \<Rightarrow>
          (case indexJson w of
             Some cached \<Rightarrow>
               if IndexSnapshot.version cached = INDEX_VERSION
               then Inr (cached, w\<lparr> inMemoryIndex := Some cached \<rparr>)
               else freshIndex js w
           | None \<Rightarrow> freshIndex js w))"

section \<open>The Timeline Extractor\<close>

text \<open>The state of the loop of \<^verbatim>\<open>buildTimeline\<close>.\<close>

record extraction =
  emitted :: "TimelineEvent list"
  callIdToName :: "string \<Rightarrow> string option"

definition push :: "TimelineEvent \<Rightarrow> extraction \<Rightarrow> extraction" where
  "push e x = x\<lparr> emitted := emitted x @ [e] \<rparr>"

definition maxEvents :: nat where
  "maxEvents = 5000"

text \<open>Line 379: \<^verbatim>\<open>toIso(obj.timestamp) ?? ""\<close>.\<close>

definition stamp :: "builtins \<Rightarrow> json \<Rightarrow> string" where
  "stamp js obj = (case toIso js (get obj ''timestamp'') of None \<Rightarrow> [] | Some i \<Rightarrow> i)"

text \<open>Lines 379 to 411: what one record adds to the events.\<close>

definition timelineRecord :: "builtins \<Rightarrow> json \<Rightarrow> extraction \<Rightarrow> extraction" where
  "timelineRecord js obj x =
     (let t = stamp js obj;
          x1 = (if get obj ''type'' = Some (JStr ''event_msg'')
                     \<and> getOpt (get obj ''payload'') ''type'' = Some (JStr ''turn_aborted'')
                then push \<lparr> ts = t, kind = Error, name = None, text' = Some ''turn_aborted'' \<rparr> x
                else x)
      in if get obj ''type'' = Some (JStr ''response_item'')
         then (let payload = coalesce (get obj ''payload'') (JObj []);
                   pt = get payload ''type''
               in if pt = Some (JStr ''message'')
                  then (let role = get payload ''role'';
                            txt = (case extractMessageText payload of None \<Rightarrow> [] | Some m \<Rightarrow> m)
                        in if role = Some (JStr ''user'')
                           then push \<lparr> ts = t, kind = User, name = None, text' = Some txt \<rparr> x1
                           else if role = Some (JStr ''assistant'')
                           then push \<lparr> ts = t, kind = Assistant, name = None, text' = Some txt \<rparr> x1
                           else push \<lparr> ts = t, kind = Other, name = None, text' = Some txt \<rparr> x1)
                  else if pt = Some (JStr ''function_call'') \<or> pt = Some (JStr ''custom_tool_call'')
                  then (let nm = (case asString (get payload ''name'') of
                                    Some n \<Rightarrow> n | None \<Rightarrow> ''unknown'');
                            callId = asString (get payload ''call_id'');
                            x2 = (if truthyStr callId
                                  then x1\<lparr> callIdToName := (callIdToName x1)(the callId \<mapsto> nm) \<rparr>
                                  else x1);
                            args = asString (get payload ''arguments'');
                            input = asString (get payload ''input'');
                            x3 = push \<lparr> ts = t, kind = Tool_call, name = Some nm,
                                        text' = Some (case args of None \<Rightarrow> [] | Some a \<Rightarrow> a) \<rparr> x2
                        in if \<not> truthyStr args \<and> truthyStr input
                           then x3\<lparr> emitted := (emitted x3)
                                   [length (emitted x3) - 1 :=
                                      \<lparr> ts = t, kind = Tool_call, name = Some nm, text' = input \<rparr>] \<rparr>
                           else x3)
                  else if pt = Some (JStr ''function_call_output'')
                          \<or> pt = Some (JStr ''custom_tool_call_output'')
                  then (let callId = asString (get payload ''call_id'');
                            nm = (case asString (get payload ''name'') of
                                    Some n \<Rightarrow> Some n
                                  | None \<Rightarrow> if truthyStr callId
                                            then callIdToName x1 (the callId) else None);
                            out = (case asString (get payload ''output'') of
                                     Some v \<Rightarrow> v | None \<Rightarrow> [])
                        in push \<lparr> ts = t, kind = Tool_output, name = nm, text' = Some out \<rparr> x1)
                  else x1)
         else x1)"

text \<open>The \<^verbatim>\<open>for await\<close> loop of \<^verbatim>\<open>buildTimeline\<close> (lines 375 to 417): the flag
  \<^verbatim>\<open>truncated\<close> and the state when the loop is left.\<close>

fun timelineLoop :: "builtins \<Rightarrow> string list \<Rightarrow> extraction \<Rightarrow> bool \<times> extraction" where
  "timelineLoop js [] x = (False, x)"
| "timelineLoop js (line # rest) x =
     (let obj = safeJsonParse js line
      in if \<not> truthy obj then timelineLoop js rest x
         else (let x' = timelineRecord js obj x
               in if length (emitted x') \<ge> maxEvents then (True, x')
                  else timelineLoop js rest x'))"

definition buildTimeline :: "builtins \<Rightarrow> string list \<Rightarrow> SessionSummary \<Rightarrow> SessionTimelineResponse" where
  "buildTimeline js lines sm =
     (let (tr, x) = timelineLoop js lines \<lparr> emitted = [], callIdToName = (\<lambda>k. None) \<rparr>
      in \<lparr> summary = sm, truncated = tr, events = emitted x \<rparr>)"

section \<open>Session lookup and \<^verbatim>\<open>getSessionTimeline\<close>\<close>

text \<open>The slow path of \<^verbatim>\<open>findFileForSession\<close> looks at the first line of a file only.\<close>

definition firstLineNames :: "builtins \<Rightarrow> world \<Rightarrow> string \<Rightarrow> string \<Rightarrow> bool" where
  "firstLineNames js w sid f =
     (case readLines w f of
        [] \<Rightarrow> False
      | line # rest \<Rightarrow>
          (let obj = safeJsonParse js line
           in get obj ''type'' = Some (JStr ''session_meta'')
              \<and> getOpt (get obj ''payload'') ''id'' = Some (JStr sid)))"

text \<open>The loop of the slow path (lines 354 to 362): a file that cannot be opened makes it
  throw.\<close>

fun scanFirstLines :: "builtins \<Rightarrow> world \<Rightarrow> string \<Rightarrow> string list \<Rightarrow> failure + string option" where
  "scanFirstLines js w sid [] = Inr None"
| "scanFirstLines js w sid (f # fs) =
     (if \<not> readable w f then Inl (ReadFailed f)
      else if firstLineNames js w sid f then Inr (Some f)
      else scanFirstLines js w sid fs)"

definition findFileForSession :: "builtins \<Rightarrow> world \<Rightarrow> string \<Rightarrow> failure + string option" where
  "findFileForSession js w sid =
     (let found = listJsonlFiles w;
          exact = find (\<lambda>f. basename f ''.jsonl'' = sid) found
      in if truthyStr exact then Inr exact
         else scanFirstLines js w sid found)"

text \<open>Lines 425 and 426: the file of the session, from the snapshot or from the lookup.\<close>

definition resolveFile ::
    "builtins \<Rightarrow> world \<Rightarrow> IndexSnapshot \<Rightarrow> string \<Rightarrow> failure + string option" where
  "resolveFile js w index sid =
     (case find (\<lambda>s. id' s = JStr sid) (IndexSnapshot.sessions index) of
        Some session \<Rightarrow> Inr (Some (file' session))
      | None \<Rightarrow> findFileForSession js w sid)"

text \<open>The text of the synthetic event of line 444 (a Chinese sentence saying that no
  session file was found), as the bytes of its UTF-8 encoding.\<close>

definition notFoundText :: string where
  "notFoundText =
     [CHR 0xE6, CHR 0x9C, CHR 0xAA, CHR 0xE6, CHR 0x89, CHR 0xBE, CHR 0xE5, CHR 0x88, CHR 0xB0,
      CHR 0xE5, CHR 0xAF, CHR 0xB9, CHR 0xE5, CHR 0xBA, CHR 0x94] @ '' session '' @
     [CHR 0xE6, CHR 0x96, CHR 0x87, CHR 0xE4, CHR 0xBB, CHR 0xB6]"

definition notFound :: "builtins \<Rightarrow> world \<Rightarrow> string \<Rightarrow> SessionTimelineResponse" where
  "notFound js w sid =
     \<lparr> summary = \<lparr> id' = JStr sid, file' = [], startedAt = None, endedAt = None,
                   durationSec = None, cwd = None, originator = None, cliVersion = None,
                   messages = 0, toolCalls = 0, errors = 1 \<rparr>,
       truncated = False,
       events = [\<lparr> ts = toISOString js (now w), kind = Error, name = None,
                   text' = Some notFoundText \<rparr>] \<rparr>"

text \<open>Lines 456 to 460: the timeline is extracted and its cache file written. The file
  is read by \<^verbatim>\<open>buildTimeline\<close> in any case, and throws when it cannot be opened.\<close>

definition rebuildTimeline ::
    "builtins \<Rightarrow> world \<Rightarrow> SessionSummary option \<Rightarrow> string \<Rightarrow> Stats \<Rightarrow> string
       \<Rightarrow> failure + SessionTimelineResponse \<times> world" where
  "rebuildTimeline js w session file st sid =
     (if \<not> readable w file then Inl (ReadFailed file)
      else (let sm = (case session of
                        Some s \<Rightarrow> s
                      | None \<Rightarrow> FileIndex.summary (buildFileIndex js file (readLines w file)));
                built = buildTimeline js (readLines w file) sm
            in Inr (built,
                    w\<lparr> timelineJson := (timelineJson w)
                          (sid \<mapsto> \<lparr> summary = summary built, truncated = truncated built,
                                     events = events built,
                                     fileMtimeMs = Some (Stats.mtimeMs st),
                                     fileSize = Some (Stats.size' st) \<rparr>) \<rparr>)))"

text \<open>
  \<^verbatim>\<open>getSessionTimeline\<close>. None of its awaits is guarded: when \<^verbatim>\<open>getIndex\<close>, the lookup
  of the file, \<^verbatim>\<open>fsp.stat\<close> or the extraction throws, the function throws (\<open>Inl\<close>).
\<close>

definition getSessionTimeline ::
    "builtins \<Rightarrow> world \<Rightarrow> string \<Rightarrow> failure + SessionTimelineResponse \<times> world" where
  "getSessionTimeline js w0 sid =
     (case getIndex js w0 of
        Inl e \<Rightarrow> Inl e
      | Inr (index, w) \<Rightarrow>
          (let session = find (\<lambda>s. id' s = JStr sid) (IndexSnapshot.sessions index)
           in case resolveFile js w index sid of
                Inl e \<Rightarrow> Inl e
              | Inr file \<Rightarrow>
                  if \<not> truthyStr file then Inr (notFound js w sid, w)
                  else (case stat w (the file) of
                          None \<Rightarrow> Inl (StatFailed (the file))
                        | Some st \<Rightarrow>
                            (case timelineJson w sid of
                               Some cached \<Rightarrow>
                                 if fileMtimeMs cached = Some (Stats.mtimeMs st)
                                    \<and> fileSize cached = Some (Stats.size' st)
                                 then Inr (\<lparr> summary = summary cached,
                                             truncated = truncated cached,
                                             events = events cached \<rparr>, w)
                                 else rebuildTimeline js w session (the file) st sid
                             | None \<Rightarrow> rebuildTimeline js w session (the file) st sid))))"

section \<open>Notions the properties are stated with\<close>

text \<open>The events that one record adds to the timeline.\<close>

definition recordEvents :: "builtins \<Rightarrow> json \<Rightarrow> extraction \<Rightarrow> TimelineEvent list" where
  "recordEvents js obj x = drop (length (emitted x)) (emitted (timelineRecord js obj x))"

text \<open>The qualifying events of a file: what the loop of \<^verbatim>\<open>buildTimeline\<close> would emit
  with the test of \<^verbatim>\<open>maxEvents\<close> left out.\<close>

definition timelineLine :: "builtins \<Rightarrow> extraction \<Rightarrow> string \<Rightarrow> extraction" where
  "timelineLine js x line =
     (let obj = safeJsonParse js line in if \<not> truthy obj then x else timelineRecord js obj x)"

definition qualifyingEvents :: "builtins \<Rightarrow> string list \<Rightarrow> TimelineEvent list" where
  "qualifyingEvents js lines =
     emitted (foldl (timelineLine js) \<lparr> emitted = [], callIdToName = (\<lambda>k. None) \<rparr> lines)"

text \<open>
  A file keeps its session metadata before its tool calls when no
  \<^verbatim>\<open>session_meta\<close> record follows a \<^verbatim>\<open>function_call\<close> or \<^verbatim>\<open>custom_tool_call\<close> record
  (the flag says whether a tool call was seen already).
\<close>

definition isSessionMeta :: "json \<Rightarrow> bool" where
  "isSessionMeta obj \<longleftrightarrow> get obj ''type'' = Some (JStr ''session_meta'')"

definition isToolCall :: "json \<Rightarrow> bool" where
  "isToolCall obj \<longleftrightarrow>
     get obj ''type'' = Some (JStr ''response_item'')
     \<and> (get (coalesce (get obj ''payload'') (JObj [])) ''type'' = Some (JStr ''function_call'')
        \<or> get (coalesce (get obj ''payload'') (JObj [])) ''type'' = Some (JStr ''custom_tool_call''))"

fun metaBeforeCalls :: "builtins \<Rightarrow> bool \<Rightarrow> string list \<Rightarrow> bool" where
  "metaBeforeCalls js seen [] = True"
| "metaBeforeCalls js seen (line # rest) =
     (let obj = safeJsonParse js line
      in if \<not> truthy obj then metaBeforeCalls js seen rest
         else (if seen then \<not> isSessionMeta obj else True)
              \<and> metaBeforeCalls js (seen \<or> isToolCall obj) rest)"

text \<open>The sum of the values of a tool histogram; a manifest entry, a manifest and the
  state of a pass are consistent when the histogram and the tool-call counts agree.\<close>

definition histogramTotal :: "(string \<times> nat) list \<Rightarrow> nat" where
  "histogramTotal h = sum_list (map snd h)"

definition consistentEntry :: "ManifestEntry \<Rightarrow> bool" where
  "consistentEntry e \<longleftrightarrow> histogramTotal (FileIndex.tools e) = toolCalls (FileIndex.summary e)"

definition consistentManifest :: "Manifest option \<Rightarrow> bool" where
  "consistentManifest m =
     (case m of None \<Rightarrow> True
      | Some manifest \<Rightarrow> list_all consistentEntry (map snd (Manifest.files manifest)))"

definition consistentPass :: "pass \<Rightarrow> bool" where
  "consistentPass p \<longleftrightarrow>
     histogramTotal (pass.tools p) = sum_list (map toolCalls (pass.sessions p))
     \<and> list_all consistentEntry (map snd (pass.files p))"

text \<open>
  What the loop over the discovered files does for a file whose manifest entry is
  reused, with the manifest \<open>m\<close> fixed; two states of a pass have the same accumulators
  when their sessions, tool histogram and daily buckets agree.
\<close>

definition reuseFile :: "world \<Rightarrow> (string \<times> ManifestEntry) list \<Rightarrow> pass \<Rightarrow> string \<Rightarrow> pass" where
  "reuseFile w m p file =
     (case stat w file of
        None \<Rightarrow> p
      | Some st \<Rightarrow>
          absorb (FileIndex.summary (the (map_of m file))) (FileIndex.tools (the (map_of m file)))
            (FileIndex.dailyKey (the (map_of m file))) p)"

definition sameAcc :: "pass \<Rightarrow> pass \<Rightarrow> bool" where
  "sameAcc p q \<longleftrightarrow> pass.sessions p = pass.sessions q \<and> pass.tools p = pass.tools q
      \<and> pass.daily p = pass.daily q"

section \<open>Sample records and a sample runtime\<close>

text \<open>
  The records of the end-to-end example of the specification, with the timestamps
  and the parts the example leaves open as parameters: a metadata record, a user
  message, a call of the tool \<^verbatim>\<open>shell\<close> with call id \<^verbatim>\<open>1\<close>, and its output.
\<close>

definition metaRecord :: "string \<Rightarrow> json" where
  "metaRecord t0 =
     JObj [(''timestamp'', JStr t0), (''type'', JStr ''session_meta''),
           (''payload'', JObj [(''id'', JStr ''abc''), (''cwd'', JStr ''/tmp''),
                               (''originator'', JStr ''cli'')])]"

definition userRecord :: "string \<Rightarrow> json \<Rightarrow> json" where
  "userRecord t1 content =
     JObj [(''timestamp'', JStr t1), (''type'', JStr ''response_item''),
           (''payload'', JObj [(''type'', JStr ''message''), (''role'', JStr ''user''),
                               (''content'', content)])]"

definition callRecord :: "string \<Rightarrow> json \<Rightarrow> json" where
  "callRecord t2 args =
     JObj [(''timestamp'', JStr t2), (''type'', JStr ''response_item''),
           (''payload'', JObj [(''type'', JStr ''function_call''), (''name'', JStr ''shell''),
                               (''call_id'', JStr ''1''), (''arguments'', args)])]"

definition outputRecord :: "string \<Rightarrow> string \<Rightarrow> json" where
  "outputRecord t3 out =
     JObj [(''timestamp'', JStr t3), (''type'', JStr ''response_item''),
           (''payload'', JObj [(''type'', JStr ''function_call_output''),
                               (''call_id'', JStr ''1''), (''output'', JStr out)])]"

definition abortedRecord :: json where
  "abortedRecord =
     JObj [(''type'', JStr ''event_msg''), (''payload'', JObj [(''type'', JStr ''turn_aborted'')])]"

text \<open>Two outputs of a tool and their values under \<^verbatim>\<open>JSON.parse\<close>.\<close>

definition exitText :: string where
  \<open>exitText = ''{"metadata":{"exit_code":1}}''\<close>

definition exitValue :: json where
  "exitValue = JObj [(''metadata'', JObj [(''exit_code'', JNum 1)])]"

definition failedText :: string where
  \<open>failedText = ''{"output":"error: no such file","metadata":{"exit_code":1}}''\<close>

definition failedValue :: json where
  "failedValue =
     JObj [(''output'', JStr ''error: no such file''),
           (''metadata'', JObj [(''exit_code'', JNum 1)])]"

text \<open>The first output with a space in front: \<^verbatim>\<open>JSON.parse\<close> skips white space, so the
  text has the same value.\<close>

definition spacedText :: string where
  "spacedText = CHR '' '' # exitText"

text \<open>The lines of a log file, as JSON text. A string inside JSON text has its double
  quotes escaped.\<close>

definition escapeQuotes :: "string \<Rightarrow> string" where
  "escapeQuotes s = concat (map (\<lambda>c. if c = CHR 0x22 then [CHR 0x5C, CHR 0x22] else [c]) s)"

definition metaLine :: string where
  \<open>metaLine = ''{"timestamp":"2024-01-01T00:00:00.000Z","type":"session_meta","payload":{"id":"abc","cwd":"/tmp","originator":"cli"}}''\<close>

definition userLine :: string where
  \<open>userLine = ''{"timestamp":"2024-01-01T00:00:01.000Z","type":"response_item","payload":{"type":"message","role":"user","content":[{"type":"input_text","text":"hi"}]}}''\<close>

definition callLine :: string where
  \<open>callLine = ''{"timestamp":"2024-01-01T00:00:02.000Z","type":"response_item","payload":{"type":"function_call","name":"shell","call_id":"1","arguments":"{}"}}''\<close>

definition outputLine :: string where
  \<open>outputLine = ''{"timestamp":"2024-01-01T00:00:03.000Z","type":"response_item","payload":{"type":"function_call_output","call_id":"1","output":"''
      @ escapeQuotes exitText @ ''"}}''\<close>

definition failedLine :: string where
  \<open>failedLine = ''{"timestamp":"2024-01-01T00:00:03.000Z","type":"response_item","payload":{"type":"function_call_output","call_id":"1","output":"''
      @ escapeQuotes failedText @ ''"}}''\<close>

definition spacedLine :: string where
  \<open>spacedLine = ''{"timestamp":"2024-01-01T00:00:03.000Z","type":"response_item","payload":{"type":"function_call_output","call_id":"1","output":"''
      @ escapeQuotes spacedText @ ''"}}''\<close>

definition abortedLine :: string where
  \<open>abortedLine = ''{"type":"event_msg","payload":{"type":"turn_aborted"}}''\<close>

text \<open>An output record of a custom tool whose output is a number, not a string.\<close>

definition silentRecord :: json where
  "silentRecord =
     JObj [(''type'', JStr ''response_item''),
           (''payload'', JObj [(''type'', JStr ''custom_tool_call_output''),
                               (''call_id'', JStr ''1''), (''output'', JNum 1)])]"

definition silentLine :: string where
  \<open>silentLine = ''{"type":"response_item","payload":{"type":"custom_tool_call_output","call_id":"1","output":1}}''\<close>

text \<open>
  A runtime for the closed examples: \<^verbatim>\<open>JSON.parse\<close> on the texts above (any other text
  counts as malformed), \<^verbatim>\<open>Date\<close> on the four timestamps of the sample lines.
\<close>

definition sampleJs :: builtins where
  "sampleJs =
     \<lparr> JSON_parse = map_of
         [(metaLine, metaRecord ''2024-01-01T00:00:00.000Z''),
          (userLine, userRecord ''2024-01-01T00:00:01.000Z''
             (JArr [JObj [(''type'', JStr ''input_text''), (''text'', JStr ''hi'')]])),
          (callLine, callRecord ''2024-01-01T00:00:02.000Z'' (JStr ''{}'')),
          (outputLine, outputRecord ''2024-01-01T00:00:03.000Z'' exitText),
          (failedLine, outputRecord ''2024-01-01T00:00:03.000Z'' failedText),
          (spacedLine, outputRecord ''2024-01-01T00:00:03.000Z'' spacedText),
          (spacedText, exitValue),
          (abortedLine, abortedRecord),
          (exitText, exitValue),
          (failedText, failedValue),
          (silentLine, silentRecord)],
       Date_parse = map_of
         [(''2024-01-01T00:00:00.000Z'', 1704067200000),
          (''2024-01-01T00:00:01.000Z'', 1704067201000),
          (''2024-01-01T00:00:02.000Z'', 1704067202000),
          (''2024-01-01T00:00:03.000Z'', 1704067203000)],
       toISOString = (\<lambda>d. if d = 1704067200000 then ''2024-01-01T00:00:00.000Z''
                          else if d = 1704067201000 then ''2024-01-01T00:00:01.000Z''
                          else if d = 1704067202000 then ''2024-01-01T00:00:02.000Z''
                          else if d = 1704067203000 then ''2024-01-01T00:00:03.000Z''
                          else ''1970-01-01T00:00:00.000Z'') \<rparr>"

definition sampleSummary :: SessionSummary where
  "sampleSummary = scan.summary (initialScan ''abc'' ''/s/abc.jsonl'')"

text \<open>A fresh process and a sessions directory with one log file, and a second path that
  is listed but gone: it can neither be stat'ed nor opened.\<close>

definition sampleWorld :: world where
  "sampleWorld =
     \<lparr> getSessionsDir = ''/s'', getCacheDir = ''/c'',
       listJsonlFiles = [''/s/abc.jsonl'', ''/s/gone.jsonl''],
       stat = map_of [(''/s/abc.jsonl'', \<lparr> Stats.mtimeMs = 1704067203000, size' = 600 \<rparr>)],
       readLines = (\<lambda>f. if f = ''/s/abc.jsonl'' then [metaLine, userLine, callLine, outputLine]
                         else []),
       readable = (\<lambda>f. f = ''/s/abc.jsonl''),
       manifestJson = None, indexJson = None, timelineJson = (\<lambda>k. None),
       cacheDirOk = True, now = 1704067203000, inMemoryIndex = None \<rparr>"

text \<open>The sample world without the path that is gone; and that world with a cache
  directory that cannot be created.\<close>

definition tidyWorld :: world where
  "tidyWorld = sampleWorld\<lparr> listJsonlFiles := [''/s/abc.jsonl''] \<rparr>"

definition noCacheWorld :: world where
  "noCacheWorld = tidyWorld\<lparr> cacheDirOk := False \<rparr>"

text \<open>The two worlds after the first request has built the index and kept it in
  memory.\<close>

definition servedTidy :: world where
  "servedTidy = (snd (snd (buildOrUpdateIndex sampleJs tidyWorld)))
                  \<lparr> inMemoryIndex := Some (fst (buildOrUpdateIndex sampleJs tidyWorld)) \<rparr>"

definition servedSample :: world where
  "servedSample = (snd (snd (buildOrUpdateIndex sampleJs sampleWorld)))
                  \<lparr> inMemoryIndex := Some (fst (buildOrUpdateIndex sampleJs sampleWorld)) \<rparr>"

text \<open>The sample world after a build, at a later time, with the contents of every file
  gone but the fingerprints as they were; and the sample world with a log file in
  which the metadata record comes after a tool call.\<close>

definition laterWorld :: world where
  "laterWorld =
     (snd (snd (buildOrUpdateIndex sampleJs sampleWorld)))
       \<lparr> readLines := (\<lambda>f. []), now := 1704067200000 \<rparr>"

definition resetWorld :: world where
  "resetWorld = sampleWorld\<lparr> readLines := (\<lambda>f. [callLine, metaLine]) \<rparr>"

section \<open>The Timeline Extractor: properties\<close>

lemma timelineRecord_adds:
  "\<exists>news. emitted (timelineRecord js obj x) = emitted x @ news \<and> length news \<le> 1
      \<and> (\<forall>e \<in> set news. ts e = stamp js obj)"
  unfolding timelineRecord_def push_def Let_def
  by (auto split: option.splits)

lemma timelineRecord_append:
  "emitted (timelineRecord js obj x) = emitted x @ recordEvents js obj x"
  using timelineRecord_adds[of js obj x] by (auto simp: recordEvents_def)

lemma recordEvents_le1: "length (recordEvents js obj x) \<le> 1"
  using timelineRecord_adds[of js obj x] by (auto simp: recordEvents_def)

lemma recordEvents_ts: "e \<in> set (recordEvents js obj x) \<Longrightarrow> ts e = stamp js obj"
  using timelineRecord_adds[of js obj x] by (auto simp: recordEvents_def)

lemma timelineLine_grows:
  "\<exists>news. emitted (timelineLine js x line) = emitted x @ news \<and> length news \<le> 1"
  unfolding timelineLine_def Let_def
  using timelineRecord_append[of js "safeJsonParse js line" x]
    recordEvents_le1[of js "safeJsonParse js line" x]
  by auto

lemma foldl_timelineLine_prefix:
  "\<exists>more. emitted (foldl (timelineLine js) x lines) = emitted x @ more"
proof (induction lines arbitrary: x)
  case Nil
  then show ?case by simp
next
  case (Cons line rest)
  obtain news where n: "emitted (timelineLine js x line) = emitted x @ news"
    using timelineLine_grows by blast
  obtain more where m: "emitted (foldl (timelineLine js) (timelineLine js x line) rest)
      = emitted (timelineLine js x line) @ more"
    using Cons.IH by blast
  show ?case using n m by simp
qed

text \<open>The loop with the cap returns the first \<open>maxEvents\<close> events of the loop without
  it, and sets the flag when the cap was reached. Each record adds at most one event,
  so the count cannot jump over the cap.\<close>

lemma timelineLoop_cap:
  assumes "length (emitted x) < maxEvents"
  shows "emitted (snd (timelineLoop js lines x))
           = take maxEvents (emitted (foldl (timelineLine js) x lines))
         \<and> fst (timelineLoop js lines x)
           = (maxEvents \<le> length (emitted (foldl (timelineLine js) x lines)))"
  using assms
proof (induction lines arbitrary: x)
  case Nil
  then show ?case by simp
next
  case (Cons line rest)
  let ?obj = "safeJsonParse js line"
  show ?case
  proof (cases "truthy ?obj")
    case False
    then have "timelineLine js x line = x" by (simp add: timelineLine_def)
    with False Cons show ?thesis by simp
  next
    case True
    let ?x' = "timelineRecord js ?obj x"
    have step: "timelineLine js x line = ?x'" using True by (simp add: timelineLine_def)
    obtain news where n: "emitted ?x' = emitted x @ news" "length news \<le> 1"
      using timelineRecord_append recordEvents_le1 by blast
    show ?thesis
    proof (cases "maxEvents \<le> length (emitted ?x')")
      case full: True
      then have len: "length (emitted ?x') = maxEvents"
        using n Cons.prems by simp
      obtain more where m: "emitted (foldl (timelineLine js) ?x' rest) = emitted ?x' @ more"
        using foldl_timelineLine_prefix by blast
      have "timelineLoop js (line # rest) x = (True, ?x')"
        using True full by (simp add: Let_def)
      then show ?thesis using step m len by simp
    next
      case notfull: False
      then have "timelineLoop js (line # rest) x = timelineLoop js rest ?x'"
        using True by (simp add: Let_def)
      moreover have "length (emitted ?x') < maxEvents" using notfull by simp
      ultimately show ?thesis using Cons.IH[of ?x'] step by simp
    qed
  qed
qed

lemma buildTimeline_cap:
  "events (buildTimeline js lines sm) = take maxEvents (qualifyingEvents js lines)
   \<and> truncated (buildTimeline js lines sm) = (maxEvents \<le> length (qualifyingEvents js lines))"
  using timelineLoop_cap[of "\<lparr> emitted = [], callIdToName = (\<lambda>k. None) \<rparr>" js lines]
  by (auto simp: buildTimeline_def qualifyingEvents_def maxEvents_def split: prod.splits)

subsection \<open>The sample runtime on the sample lines\<close>

lemma sample_parse:
  "JSON_parse sampleJs metaLine = Some (metaRecord ''2024-01-01T00:00:00.000Z'')"
  "JSON_parse sampleJs userLine = Some (userRecord ''2024-01-01T00:00:01.000Z''
       (JArr [JObj [(''type'', JStr ''input_text''), (''text'', JStr ''hi'')]]))"
  "JSON_parse sampleJs callLine = Some (callRecord ''2024-01-01T00:00:02.000Z'' (JStr ''{}''))"
  "JSON_parse sampleJs outputLine = Some (outputRecord ''2024-01-01T00:00:03.000Z'' exitText)"
  "JSON_parse sampleJs failedLine = Some (outputRecord ''2024-01-01T00:00:03.000Z'' failedText)"
  "JSON_parse sampleJs abortedLine = Some abortedRecord"
  "JSON_parse sampleJs exitText = Some exitValue"
  "JSON_parse sampleJs failedText = Some failedValue"
  "JSON_parse sampleJs spacedLine = Some (outputRecord ''2024-01-01T00:00:03.000Z'' spacedText)"
  "JSON_parse sampleJs spacedText = Some exitValue"
  "JSON_parse sampleJs silentLine = Some silentRecord"
  by (simp_all add: sampleJs_def metaLine_def userLine_def callLine_def outputLine_def
      failedLine_def spacedLine_def abortedLine_def exitText_def failedText_def spacedText_def
      silentLine_def escapeQuotes_def)

lemma sample_dates:
  "Date_parse sampleJs ''2024-01-01T00:00:00.000Z'' = Some 1704067200000"
  "Date_parse sampleJs ''2024-01-01T00:00:01.000Z'' = Some 1704067201000"
  "Date_parse sampleJs ''2024-01-01T00:00:02.000Z'' = Some 1704067202000"
  "Date_parse sampleJs ''2024-01-01T00:00:03.000Z'' = Some 1704067203000"
  by (simp_all add: sampleJs_def)

lemma sample_iso:
  "toISOString sampleJs 1704067200000 = ''2024-01-01T00:00:00.000Z''"
  "toISOString sampleJs 1704067201000 = ''2024-01-01T00:00:01.000Z''"
  "toISOString sampleJs 1704067202000 = ''2024-01-01T00:00:02.000Z''"
  "toISOString sampleJs 1704067203000 = ''2024-01-01T00:00:03.000Z''"
  by (simp_all add: sampleJs_def)

lemma parse_abortedLine: "safeJsonParse sampleJs abortedLine = abortedRecord"
  by (simp add: safeJsonParse_def sample_parse)

lemma parse_userLine:
  "safeJsonParse sampleJs userLine =
     userRecord ''2024-01-01T00:00:01.000Z''
       (JArr [JObj [(''type'', JStr ''input_text''), (''text'', JStr ''hi'')]])"
  by (simp add: safeJsonParse_def sample_parse)

lemma parse_metaLine: "safeJsonParse sampleJs metaLine = metaRecord ''2024-01-01T00:00:00.000Z''"
  by (simp add: safeJsonParse_def sample_parse)

lemma extract_hi:
  "extractMessageText
     (JObj [(''type'', JStr ''message''), (''role'', JStr ''user''),
            (''content'', JArr [JObj [(''type'', JStr ''input_text''), (''text'', JStr ''hi'')]])])
   = Some ''hi''"
  by (simp add: extractMessageText_def fragment_def trim_def asciiSpace_def space2_def space3_def)

lemma stamp_user:
  "stamp sampleJs (userRecord ''2024-01-01T00:00:01.000Z'' c) = ''2024-01-01T00:00:01.000Z''"
  by (simp add: stamp_def toIso_def userRecord_def sample_dates sample_iso)

lemma user_step:
  "timelineLine sampleJs x userLine =
     push \<lparr> ts = ''2024-01-01T00:00:01.000Z'', kind = User, name = None, text' = Some ''hi'' \<rparr> x"
  unfolding timelineLine_def parse_userLine Let_def timelineRecord_def stamp_user
  by (simp add: userRecord_def extract_hi)

lemma aborted_step:
  "timelineLine sampleJs x abortedLine =
     push \<lparr> ts = [], kind = Error, name = None, text' = Some ''turn_aborted'' \<rparr> x"
  unfolding timelineLine_def parse_abortedLine Let_def timelineRecord_def
  by (simp add: abortedRecord_def stamp_def toIso_def getOpt_def)

lemma aborted_replicate:
  "length (emitted (foldl (timelineLine sampleJs) x (replicate n abortedLine)))
     = length (emitted x) + n"
  by (induction n arbitrary: x) (simp_all add: aborted_step push_def)

lemma qualifying_aborted:
  "length (qualifyingEvents sampleJs (replicate n abortedLine)) = n"
  by (simp add: qualifyingEvents_def aborted_replicate)

lemma qualifying_two:
  "qualifyingEvents sampleJs [abortedLine, userLine] =
     [\<lparr> ts = [], kind = Error, name = None, text' = Some ''turn_aborted'' \<rparr>,
      \<lparr> ts = ''2024-01-01T00:00:01.000Z'', kind = User, name = None, text' = Some ''hi'' \<rparr>]"
  by (simp add: qualifyingEvents_def aborted_step user_step push_def)

subsection \<open>Truncation\<close>

text \<open>
  Claim C4. For every session log file, timeline extraction emits at most 5000
  events. If the file produces more than 5000 qualifying events, the response is
  marked truncated and holds exactly 5000 events, the first 5000 in file order. If
  it produces fewer than 5000, the response holds all of them in order and is not
  marked truncated.
\<close>

theorem timeline_capped:
  "length (events (buildTimeline js lines sm)) \<le> 5000
   \<and> (5000 < length (qualifyingEvents js lines) \<longrightarrow>
        truncated (buildTimeline js lines sm)
        \<and> length (events (buildTimeline js lines sm)) = 5000
        \<and> events (buildTimeline js lines sm) = take 5000 (qualifyingEvents js lines))
   \<and> (length (qualifyingEvents js lines) < 5000 \<longrightarrow>
        \<not> truncated (buildTimeline js lines sm)
        \<and> events (buildTimeline js lines sm) = qualifyingEvents js lines)"
  using buildTimeline_cap[of js lines sm] by (simp add: maxEvents_def)

text \<open>A file of 5001 aborted turns is cut to 5000 events; a file of two records is
  returned whole.\<close>

theorem timeline_capped_witness:
  "truncated (buildTimeline sampleJs (replicate 5001 abortedLine) sampleSummary)
   \<and> length (events (buildTimeline sampleJs (replicate 5001 abortedLine) sampleSummary)) = 5000
   \<and> \<not> truncated (buildTimeline sampleJs [abortedLine, userLine] sampleSummary)
   \<and> events (buildTimeline sampleJs [abortedLine, userLine] sampleSummary) =
     [\<lparr> ts = [], kind = Error, name = None, text' = Some ''turn_aborted'' \<rparr>,
      \<lparr> ts = ''2024-01-01T00:00:01.000Z'', kind = User, name = None, text' = Some ''hi'' \<rparr>]"
proof -
  have big: "5000 < length (qualifyingEvents sampleJs (replicate 5001 abortedLine))"
    unfolding qualifying_aborted by simp
  have small: "length (qualifyingEvents sampleJs [abortedLine, userLine]) < 5000"
    unfolding qualifying_two by simp
  show ?thesis
    using timeline_capped[of sampleJs "replicate 5001 abortedLine" sampleSummary]
      timeline_capped[of sampleJs "[abortedLine, userLine]" sampleSummary] big small
    unfolding qualifying_two by blast
qed

subsection \<open>Timestamps of events\<close>

lemma stamp_cases:
  "stamp js obj = [] \<or> (\<exists>s d. Date_parse js s = Some d \<and> stamp js obj = toISOString js d)"
  by (auto simp: stamp_def toIso_def split: option.splits)

lemma foldl_timelineLine_ts:
  assumes "\<forall>e \<in> set (emitted x). P (ts e)" and "\<And>obj. P (stamp js obj)"
  shows "\<forall>e \<in> set (emitted (foldl (timelineLine js) x lines)). P (ts e)"
  using assms(1)
proof (induction lines arbitrary: x)
  case Nil
  then show ?case by simp
next
  case (Cons line rest)
  have "\<forall>e \<in> set (emitted (timelineLine js x line)). P (ts e)"
    using Cons.prems assms(2) recordEvents_ts
    by (auto simp: timelineLine_def Let_def timelineRecord_append)
  then show ?case using Cons.IH by simp
qed

lemma qualifyingEvents_ts:
  "e \<in> set (qualifyingEvents js lines) \<Longrightarrow>
     ts e = [] \<or> (\<exists>s d. Date_parse js s = Some d \<and> ts e = toISOString js d)"
  using foldl_timelineLine_ts[of "\<lparr> emitted = [], callIdToName = (\<lambda>k. None) \<rparr>"
      "\<lambda>t. t = [] \<or> (\<exists>s d. Date_parse js s = Some d \<and> t = toISOString js d)" js lines]
    stamp_cases[of js]
  by (simp add: qualifyingEvents_def)

text \<open>
  Claim C10. Every event that the Timeline Extractor emits carries a \<open>ts\<close> that is
  either a normalized ISO timestamp (\<^verbatim>\<open>toISOString\<close> of a date that parsed) or the empty
  string; and the events of a record whose timestamp is missing or does not parse
  carry the empty string. The field is a string in every event, never absent.
\<close>

theorem timeline_ts_never_absent:
  "(\<forall>e \<in> set (events (buildTimeline js lines sm)).
      ts e = [] \<or> (\<exists>s d. Date_parse js s = Some d \<and> ts e = toISOString js d))
   \<and> (toIso js (get obj ''timestamp'') = None \<longrightarrow>
        (\<forall>e \<in> set (recordEvents js obj x). ts e = []))"
proof
  show "\<forall>e \<in> set (events (buildTimeline js lines sm)).
      ts e = [] \<or> (\<exists>s d. Date_parse js s = Some d \<and> ts e = toISOString js d)"
    using buildTimeline_cap[of js lines sm] qualifyingEvents_ts[of _ js lines]
    by (auto dest: in_set_takeD)
  show "toIso js (get obj ''timestamp'') = None \<longrightarrow>
        (\<forall>e \<in> set (recordEvents js obj x). ts e = [])"
    using recordEvents_ts[of _ js obj x] by (auto simp: stamp_def)
qed

lemma two_events:
  "events (buildTimeline sampleJs [abortedLine, userLine] sampleSummary) =
     [\<lparr> ts = [], kind = Error, name = None, text' = Some ''turn_aborted'' \<rparr>,
      \<lparr> ts = ''2024-01-01T00:00:01.000Z'', kind = User, name = None, text' = Some ''hi'' \<rparr>]"
  using buildTimeline_cap[of sampleJs "[abortedLine, userLine]" sampleSummary]
  by (simp add: qualifying_two maxEvents_def)

lemma aborted_events:
  "recordEvents sampleJs abortedRecord \<lparr> emitted = [], callIdToName = (\<lambda>k. None) \<rparr> =
     [\<lparr> ts = [], kind = Error, name = None, text' = Some ''turn_aborted'' \<rparr>]"
  by (simp add: recordEvents_def timelineRecord_def abortedRecord_def stamp_def toIso_def
      getOpt_def push_def)

text \<open>The user message of the sample has its normalized timestamp; the aborted turn,
  which has no timestamp, gets the empty string.\<close>

theorem timeline_ts_never_absent_witness:
  "\<lparr> ts = ''2024-01-01T00:00:01.000Z'', kind = User, name = None, text' = Some ''hi'' \<rparr>
     \<in> set (events (buildTimeline sampleJs [abortedLine, userLine] sampleSummary))
   \<and> (\<exists>s d. Date_parse sampleJs s = Some d
          \<and> ''2024-01-01T00:00:01.000Z'' = toISOString sampleJs d)
   \<and> toIso sampleJs (get abortedRecord ''timestamp'') = None
   \<and> map ts (recordEvents sampleJs abortedRecord \<lparr> emitted = [], callIdToName = (\<lambda>k. None) \<rparr>)
       = [[]]"
proof -
  let ?e = "\<lparr> ts = ''2024-01-01T00:00:01.000Z'', kind = User, name = None, text' = Some ''hi'' \<rparr>"
  let ?x = "\<lparr> emitted = [], callIdToName = (\<lambda>k. None) \<rparr>"
  have mem: "?e \<in> set (events (buildTimeline sampleJs [abortedLine, userLine] sampleSummary))"
    unfolding two_events by simp
  have none: "toIso sampleJs (get abortedRecord ''timestamp'') = None"
    by (simp add: toIso_def abortedRecord_def)
  note t = timeline_ts_never_absent[of sampleJs "[abortedLine, userLine]" sampleSummary
      abortedRecord ?x]
  from t mem have "ts ?e = [] \<or> (\<exists>s d. Date_parse sampleJs s = Some d \<and> ts ?e = toISOString sampleJs d)"
    by blast
  then have iso: "\<exists>s d. Date_parse sampleJs s = Some d
      \<and> ''2024-01-01T00:00:01.000Z'' = toISOString sampleJs d"
    by simp
  from t none have "\<forall>e \<in> set (recordEvents sampleJs abortedRecord ?x). ts e = []"
    by blast
  then have "map ts (recordEvents sampleJs abortedRecord ?x) = [[]]"
    unfolding aborted_events by simp
  with mem iso none show ?thesis by blast
qed

subsection \<open>The text of a message event\<close>

lemma message_text:
  "(case extractMessageText payload of None \<Rightarrow> [] | Some m \<Rightarrow> m) =
     (case get payload ''content'' of
        Some (JArr content) \<Rightarrow> trim (joinNl (concat (map fragment content)))
      | _ \<Rightarrow> [])"
  by (simp add: extractMessageText_def Let_def split: option.splits json.splits)

text \<open>
  Claim C8, as amended. For every message record (a \<^verbatim>\<open>response_item\<close> whose payload has
  the type \<^verbatim>\<open>message\<close>, whatever its role and content) the Timeline Extractor emits one
  event, and that event has a text: the textual content fragments joined by newline
  and trimmed when the content is an array, the empty string otherwise. So when the
  joined and trimmed fragments are empty, or there is no array of content, the event
  carries the empty string as its text, and the text is never absent:
  \<^verbatim>\<open>extractMessageText\<close> returns \<^verbatim>\<open>null\<close> and line 390 replaces it by \<^verbatim>\<open>""\<close>. (The claim
  as stated says that the text is absent.)
\<close>

theorem empty_message_text:
  assumes "get obj ''type'' = Some (JStr ''response_item'')"
    and "get (coalesce (get obj ''payload'') (JObj [])) ''type'' = Some (JStr ''message'')"
  shows "\<exists>e. recordEvents js obj x = [e]
           \<and> text' e \<noteq> None
           \<and> text' e = Some (case get (coalesce (get obj ''payload'') (JObj [])) ''content'' of
                               Some (JArr content) \<Rightarrow> trim (joinNl (concat (map fragment content)))
                             | _ \<Rightarrow> [])"
  using assms
  unfolding recordEvents_def timelineRecord_def push_def Let_def message_text
  by auto

lemma user_payload:
  "get (userRecord t c) ''type'' = Some (JStr ''response_item'')"
  "get (coalesce (get (userRecord t c) ''payload'') (JObj [])) ''type'' = Some (JStr ''message'')"
  "get (coalesce (get (userRecord t c) ''payload'') (JObj [])) ''content'' = Some c"
  by (simp_all add: userRecord_def)

lemma blank_texts:
  "trim (joinNl (concat (map fragment
      [JObj [(''type'', JStr ''input_text''), (''text'', JStr ''  '')]]))) = []"
  "trim (joinNl (concat (map fragment
      [JObj [(''type'', JStr ''input_text''), (''text'', JStr [CHR 0xE3, CHR 0x80, CHR 0x80])],
       JObj [(''type'', JStr ''output_text''), (''text'', JStr [CHR 0xC2, CHR 0xA0])]]))) = []"
  by (simp_all add: fragment_def trim_def asciiSpace_def space2_def space3_def)

text \<open>Three user messages: one whose only fragment is two spaces, one with an
  ideographic space and a no-break space, and one whose content is not an array.\<close>

theorem empty_message_text_witness:
  "(\<exists>e. recordEvents sampleJs
          (userRecord ''2024-01-01T00:00:01.000Z''
             (JArr [JObj [(''type'', JStr ''input_text''), (''text'', JStr ''  '')]]))
          \<lparr> emitted = [], callIdToName = (\<lambda>k. None) \<rparr> = [e]
        \<and> text' e = Some [])
   \<and> (\<exists>e. recordEvents sampleJs
          (userRecord ''2024-01-01T00:00:01.000Z''
             (JArr [JObj [(''type'', JStr ''input_text''),
                          (''text'', JStr [CHR 0xE3, CHR 0x80, CHR 0x80])],
                    JObj [(''type'', JStr ''output_text''),
                          (''text'', JStr [CHR 0xC2, CHR 0xA0])]]))
          \<lparr> emitted = [], callIdToName = (\<lambda>k. None) \<rparr> = [e]
        \<and> text' e = Some [])
   \<and> (\<exists>e. recordEvents sampleJs (userRecord ''2024-01-01T00:00:01.000Z'' (JStr ''hi''))
          \<lparr> emitted = [], callIdToName = (\<lambda>k. None) \<rparr> = [e]
        \<and> text' e = Some [])"
  using
    empty_message_text[OF user_payload(1,2)[of "''2024-01-01T00:00:01.000Z''"
      "JArr [JObj [(''type'', JStr ''input_text''), (''text'', JStr ''  '')]]"],
      where js = sampleJs and x = "\<lparr> emitted = [], callIdToName = (\<lambda>k. None) \<rparr>"]
    empty_message_text[OF user_payload(1,2)[of "''2024-01-01T00:00:01.000Z''"
      "JArr [JObj [(''type'', JStr ''input_text''),
                          (''text'', JStr [CHR 0xE3, CHR 0x80, CHR 0x80])],
                    JObj [(''type'', JStr ''output_text''),
                          (''text'', JStr [CHR 0xC2, CHR 0xA0])]]"],
      where js = sampleJs and x = "\<lparr> emitted = [], callIdToName = (\<lambda>k. None) \<rparr>"]
    empty_message_text[OF user_payload(1,2)[of "''2024-01-01T00:00:01.000Z''" "JStr ''hi''"],
      where js = sampleJs and x = "\<lparr> emitted = [], callIdToName = (\<lambda>k. None) \<rparr>"]
  unfolding user_payload(3) option.case json.case blank_texts
  by blast

text \<open>Against the claim as stated: a user message with no content fragment at all. Its
  event has the text \<^verbatim>\<open>""\<close>, not an absent text.\<close>

theorem empty_message_text_counterexample:
  "trim (joinNl (concat (map fragment []))) = []
   \<and> map text' (recordEvents sampleJs (userRecord ''2024-01-01T00:00:01.000Z'' (JArr []))
                   \<lparr> emitted = [], callIdToName = (\<lambda>k. None) \<rparr>) = [Some []]
   \<and> map text' (recordEvents sampleJs (userRecord ''2024-01-01T00:00:01.000Z'' (JArr []))
                   \<lparr> emitted = [], callIdToName = (\<lambda>k. None) \<rparr>) \<noteq> [None]"
  by (simp add: recordEvents_def timelineRecord_def userRecord_def stamp_user[unfolded userRecord_def]
      extractMessageText_def trim_def push_def)

section \<open>The File Summarizer: properties\<close>

lemma startsWith_iff: "startsWith s p \<longleftrightarrow> (\<exists>b. s = p @ b)"
  by (induction s p rule: startsWith.induct) auto

lemma containsStr_iff: "containsStr s p \<longleftrightarrow> (\<exists>a b. s = a @ p @ b)"
proof (induction s)
  case Nil
  then show ?case by auto
next
  case (Cons c cs)
  show ?case
  proof
    assume "containsStr (c # cs) p"
    then consider "startsWith (c # cs) p" | "containsStr cs p" by auto
    then show "\<exists>a b. c # cs = a @ p @ b"
    proof cases
      case 1
      then obtain b where "c # cs = p @ b" using startsWith_iff by blast
      then have "c # cs = [] @ p @ b" by simp
      then show ?thesis by blast
    next
      case 2
      then obtain a b where "cs = a @ p @ b" using Cons.IH by blast
      then have "c # cs = (c # a) @ p @ b" by simp
      then show ?thesis by blast
    qed
  next
    assume "\<exists>a b. c # cs = a @ p @ b"
    then obtain a b where ab: "c # cs = a @ p @ b" by blast
    show "containsStr (c # cs) p"
    proof (cases a)
      case Nil
      then have "startsWith (c # cs) p" using ab startsWith_iff by auto
      then show ?thesis by simp
    next
      case (Cons a0 as)
      then have "cs = as @ p @ b" using ab by simp
      then have "containsStr cs p" using Cons.IH by blast
      then show ?thesis by simp
    qed
  qed
qed

lemma errorPattern_iff:
  "errorPattern out \<longleftrightarrow>
     (\<exists>w \<in> {''error'', ''exception'', ''traceback''}. \<exists>a b. map lowerChar out = a @ w @ b)"
  unfolding errorPattern_def Let_def containsStr_iff by blast

lemma exitCodeError_iff:
  "exitCodeError js out \<longleftrightarrow>
     (\<exists>b. out = ''{'' @ b)
     \<and> (\<exists>parsed n. JSON_parse js out = Some parsed
            \<and> getOpt (get parsed ''metadata'') ''exit_code'' = Some (JNum n) \<and> n \<noteq> 0)"
  unfolding exitCodeError_def startsWith_iff
  by (auto split: option.splits json.splits)

lemma outputErrors_iff:
  "outputErrors js payload =
     (if \<exists>out. get payload ''output'' = Some (JStr out) \<and> errorPattern out then 1 else 0)
     + (if \<exists>out. get payload ''output'' = Some (JStr out) \<and> exitCodeError js out then 1 else 0)"
proof (cases "asString (get payload ''output'')")
  case None
  then have "\<And>out. get payload ''output'' \<noteq> Some (JStr out)" by auto
  then show ?thesis using None by (simp add: outputErrors_def)
next
  case (Some out)
  then have g: "get payload ''output'' = Some (JStr out)"
    by (cases "get payload ''output''" rule: asString.cases) auto
  have "out = [] \<Longrightarrow> \<not> errorPattern out \<and> \<not> exitCodeError js out"
    by (simp add: errorPattern_def exitCodeError_def)
  then show ?thesis using Some g by (auto simp: outputErrors_def Let_def)
qed

lemma output_record_adds:
  assumes "get obj ''type'' = Some (JStr ''response_item'')"
    and "get (coalesce (get obj ''payload'') (JObj [])) ''type'' = Some (JStr ''function_call_output'')
         \<or> get (coalesce (get obj ''payload'') (JObj [])) ''type'' = Some (JStr ''custom_tool_call_output'')"
  shows "errors (scan.summary (onResponseItem js obj s)) =
           errors (scan.summary s) + outputErrors js (coalesce (get obj ''payload'') (JObj []))"
  using assms by (auto simp: onResponseItem_def Let_def)

lemma scanLine_response_item:
  assumes "JSON_parse js line = Some obj" and "get obj ''type'' = Some (JStr ''response_item'')"
  shows "\<exists>s'. scanLine js sid file s line = onResponseItem js obj s'
              \<and> scan.summary s' = scan.summary s"
proof -
  have t: "truthy obj" using assms(2) by (cases obj) auto
  let ?s' = "onEventMsg obj (onSessionMeta js sid file obj (noteTimestamp js obj s))"
  have 1: "scanLine js sid file s line = onResponseItem js obj ?s'"
    using assms(1) t by (simp add: scanLine_def safeJsonParse_def)
  have 2: "scan.summary ?s' = scan.summary s"
    using assms(2) by (simp add: onEventMsg_def onSessionMeta_def noteTimestamp_def Let_def)
  show ?thesis using 1 2 by blast
qed

lemma toIso_parsed: "Date_parse js t = Some d \<Longrightarrow> toIso js (Some (JStr t)) = Some (toISOString js d)"
  by (simp add: toIso_def)

lemma toIso_undefined: "toIso js None = None"
  by (simp add: toIso_def)

lemma scan_meta:
  assumes "JSON_parse js l = Some (metaRecord t)" and "Date_parse js t = Some d"
    and "toISOString js d \<noteq> []"
  shows "scanLine js sid file s l =
     s\<lparr> scan.summary := \<lparr> id' = JStr ''abc'', file' = file,
                         startedAt = Some (toISOString js d), endedAt = None, durationSec = None,
                         cwd = Some ''/tmp'', originator = Some ''cli'', cliVersion = None,
                         messages = 0, toolCalls = 0, errors = 0 \<rparr>,
        firstTs := (if truthyStr (firstTs s) then firstTs s else Some (toISOString js d)),
        lastTs := Some (toISOString js d) \<rparr>"
  unfolding scanLine_def safeJsonParse_def assms(1)
  by (simp add: metaRecord_def noteTimestamp_def onSessionMeta_def onEventMsg_def
      onResponseItem_def summarizeFromMeta_def toIso_parsed[OF assms(2)] toIso_undefined assms(3)
      Let_def)

lemma scan_user:
  assumes "JSON_parse js l = Some (userRecord t c)" and "Date_parse js t = Some d"
    and "toISOString js d \<noteq> []"
  shows "scanLine js sid file s l =
     s\<lparr> scan.summary := (scan.summary s)\<lparr> messages := messages (scan.summary s) + 1 \<rparr>,
        firstTs := (if truthyStr (firstTs s) then firstTs s else Some (toISOString js d)),
        lastTs := Some (toISOString js d) \<rparr>"
  unfolding scanLine_def safeJsonParse_def assms(1)
  by (simp add: userRecord_def noteTimestamp_def onSessionMeta_def onEventMsg_def
      onResponseItem_def toIso_parsed[OF assms(2)] assms(3) Let_def)

lemma scan_call:
  assumes "JSON_parse js l = Some (callRecord t a)" and "Date_parse js t = Some d"
    and "toISOString js d \<noteq> []"
  shows "scanLine js sid file s l =
     s\<lparr> scan.summary := (scan.summary s)\<lparr> toolCalls := toolCalls (scan.summary s) + 1 \<rparr>,
        scan.tools := addCount (scan.tools s) ''shell'' 1,
        callIdToToolName := (callIdToToolName s)(''1'' \<mapsto> ''shell''),
        firstTs := (if truthyStr (firstTs s) then firstTs s else Some (toISOString js d)),
        lastTs := Some (toISOString js d) \<rparr>"
  unfolding scanLine_def safeJsonParse_def assms(1)
  by (simp add: callRecord_def noteTimestamp_def onSessionMeta_def onEventMsg_def
      onResponseItem_def toIso_parsed[OF assms(2)] assms(3) Let_def)

lemma scan_output:
  assumes "JSON_parse js l = Some (outputRecord t out)" and "Date_parse js t = Some d"
    and "toISOString js d \<noteq> []"
  shows "scanLine js sid file s l =
     s\<lparr> scan.summary := (scan.summary s)\<lparr> errors := errors (scan.summary s)
              + ((if errorPattern out then 1 else 0) + (if exitCodeError js out then 1 else 0)) \<rparr>,
        firstTs := (if truthyStr (firstTs s) then firstTs s else Some (toISOString js d)),
        lastTs := Some (toISOString js d) \<rparr>"
proof -
  have "out = [] \<Longrightarrow> \<not> errorPattern out \<and> \<not> exitCodeError js out"
    by (simp add: errorPattern_def exitCodeError_def)
  then show ?thesis
    unfolding scanLine_def safeJsonParse_def assms(1)
    by (simp add: outputRecord_def noteTimestamp_def onSessionMeta_def onEventMsg_def
        onResponseItem_def outputErrors_def toIso_parsed[OF assms(2)] assms(3) Let_def)
qed

lemma exitText_errors:
  assumes "JSON_parse js exitText = Some exitValue"
  shows "\<not> errorPattern exitText" and "exitCodeError js exitText"
  using assms
  by (simp_all add: errorPattern_def lowerChar_def exitCodeError_def exitValue_def getOpt_def
      exitText_def)

subsection \<open>Errors counted for the output of a tool\<close>

text \<open>
  Claim C3, as amended. For every tool-call output record that the File Summarizer
  processes (a \<^verbatim>\<open>response_item\<close> whose payload has the type \<^verbatim>\<open>function_call_output\<close> or
  \<^verbatim>\<open>custom_tool_call_output\<close>, whatever else it holds), the error counter grows by one
  for each of two checks that holds: the output is a string that contains \<^verbatim>\<open>error\<close>,
  \<^verbatim>\<open>exception\<close> or \<^verbatim>\<open>traceback\<close> as a substring, compared without case; the output is a
  string that starts with \<^verbatim>\<open>{\<close>, parses as JSON, and the \<^verbatim>\<open>exit_code\<close> of its \<^verbatim>\<open>metadata\<close>
  is a number other than zero. So it grows by two when both hold, and a record for
  which neither holds, among them every record whose output is missing or is not a
  string, leaves it unchanged. (The claim as stated says: by one when either holds,
  and asks of the second check only that the output parses.)
\<close>

theorem output_error_count:
  assumes "JSON_parse js line = Some obj"
    and "get obj ''type'' = Some (JStr ''response_item'')"
    and "get (coalesce (get obj ''payload'') (JObj [])) ''type'' = Some (JStr ''function_call_output'')
         \<or> get (coalesce (get obj ''payload'') (JObj [])) ''type'' = Some (JStr ''custom_tool_call_output'')"
  shows "errors (scan.summary (scanLine js sid file s line)) =
           errors (scan.summary s)
           + (if \<exists>out. get (coalesce (get obj ''payload'') (JObj [])) ''output'' = Some (JStr out)
                    \<and> (\<exists>w \<in> {''error'', ''exception'', ''traceback''}.
                          \<exists>a b. map lowerChar out = a @ w @ b)
              then 1 else 0)
           + (if \<exists>out. get (coalesce (get obj ''payload'') (JObj [])) ''output'' = Some (JStr out)
                    \<and> (\<exists>b. out = ''{'' @ b)
                    \<and> (\<exists>parsed n. JSON_parse js out = Some parsed
                          \<and> getOpt (get parsed ''metadata'') ''exit_code'' = Some (JNum n)
                          \<and> n \<noteq> 0)
              then 1 else 0)"
proof -
  obtain s' where s': "scanLine js sid file s line = onResponseItem js obj s'"
      "scan.summary s' = scan.summary s"
    using scanLine_response_item[OF assms(1,2)] by blast
  show ?thesis
    unfolding s'(1) output_record_adds[OF assms(2,3)] s'(2) outputErrors_iff
      errorPattern_iff exitCodeError_iff by simp
qed

lemma failedText_pattern: "errorPattern failedText"
  by (simp add: errorPattern_def lowerChar_def failedText_def)

lemma failedText_brace: "startsWith failedText ''{''"
  by (simp add: failedText_def)

lemma failedText_errors: "errorPattern failedText" "exitCodeError sampleJs failedText"
  by (simp_all add: failedText_pattern failedText_brace exitCodeError_def sample_parse
      failedValue_def getOpt_def)

lemma spacedText_errors: "\<not> errorPattern spacedText" "\<not> exitCodeError sampleJs spacedText"
  by (simp_all add: errorPattern_def lowerChar_def exitCodeError_def spacedText_def exitText_def)

lemma output_payload:
  "get (outputRecord t out) ''type'' = Some (JStr ''response_item'')"
  "get (coalesce (get (outputRecord t out) ''payload'') (JObj [])) ''type''
     = Some (JStr ''function_call_output'')"
  "get (coalesce (get (outputRecord t out) ''payload'') (JObj [])) ''output'' = Some (JStr out)"
  by (simp_all add: outputRecord_def)

lemma silent_payload:
  "get silentRecord ''type'' = Some (JStr ''response_item'')"
  "get (coalesce (get silentRecord ''payload'') (JObj [])) ''type''
     = Some (JStr ''custom_tool_call_output'')"
  "get (coalesce (get silentRecord ''payload'') (JObj [])) ''output'' = Some (JNum 1)"
  by (simp_all add: silentRecord_def)

text \<open>An output that mentions an error and carries the exit code 1 counts twice; an
  output that is a number counts for nothing.\<close>

theorem output_error_count_witness:
  "JSON_parse sampleJs failedLine = Some (outputRecord ''2024-01-01T00:00:03.000Z'' failedText)
   \<and> errors (scan.summary (scanLine sampleJs ''abc'' ''/s/abc.jsonl''
         (initialScan ''abc'' ''/s/abc.jsonl'') failedLine)) = 2
   \<and> JSON_parse sampleJs silentLine = Some silentRecord
   \<and> errors (scan.summary (scanLine sampleJs ''abc'' ''/s/abc.jsonl''
         (initialScan ''abc'' ''/s/abc.jsonl'') silentLine)) = 0"
proof -
  have e0: "errors (scan.summary (initialScan ''abc'' ''/s/abc.jsonl'')) = 0"
    by (simp add: initialScan_def)
  have a: "errors (scan.summary (scanLine sampleJs ''abc'' ''/s/abc.jsonl''
         (initialScan ''abc'' ''/s/abc.jsonl'') failedLine)) = 2"
    using output_error_count[OF sample_parse(5) output_payload(1) disjI1[OF output_payload(2)],
        of "''abc''" "''/s/abc.jsonl''" "initialScan ''abc'' ''/s/abc.jsonl''"]
      failedText_errors
    unfolding errorPattern_iff exitCodeError_iff output_payload(3) e0
    by simp
  have b: "errors (scan.summary (scanLine sampleJs ''abc'' ''/s/abc.jsonl''
         (initialScan ''abc'' ''/s/abc.jsonl'') silentLine)) = 0"
    using output_error_count[OF sample_parse(11) silent_payload(1) disjI2[OF silent_payload(2)],
        of "''abc''" "''/s/abc.jsonl''" "initialScan ''abc'' ''/s/abc.jsonl''"]
    unfolding silent_payload(3) e0
    by simp
  show ?thesis using a b by (simp add: sample_parse)
qed

text \<open>Against the claim as stated. For the first output both conditions of the claim
  hold, and the counter goes from 0 to 2. The second output parses as JSON with the
  exit code 1, but it starts with a space, and the counter stays at 0.\<close>

theorem output_error_count_counterexample:
  "errorPattern failedText
   \<and> JSON_parse sampleJs failedText = Some failedValue
   \<and> getOpt (get failedValue ''metadata'') ''exit_code'' = Some (JNum 1)
   \<and> errors (scan.summary (initialScan ''abc'' ''/s/abc.jsonl'')) = 0
   \<and> errors (scan.summary (scanLine sampleJs ''abc'' ''/s/abc.jsonl''
         (initialScan ''abc'' ''/s/abc.jsonl'') failedLine)) = 2
   \<and> JSON_parse sampleJs spacedText = Some exitValue
   \<and> getOpt (get exitValue ''metadata'') ''exit_code'' = Some (JNum 1)
   \<and> \<not> startsWith spacedText ''{''
   \<and> errors (scan.summary (scanLine sampleJs ''abc'' ''/s/abc.jsonl''
         (initialScan ''abc'' ''/s/abc.jsonl'') spacedLine)) = 0"
proof -
  have a: "errors (scan.summary (scanLine sampleJs ''abc'' ''/s/abc.jsonl''
         (initialScan ''abc'' ''/s/abc.jsonl'') failedLine)) = 2"
    by (simp add: failedText_errors scan_output[OF sample_parse(5) sample_dates(4)]
      sample_iso initialScan_def)
  have b: "errors (scan.summary (scanLine sampleJs ''abc'' ''/s/abc.jsonl''
         (initialScan ''abc'' ''/s/abc.jsonl'') spacedLine)) = 0"
    by (simp add: spacedText_errors scan_output[OF sample_parse(9) sample_dates(4)]
      sample_iso initialScan_def)
  have c: "\<not> startsWith spacedText ''{''"
    by (simp add: spacedText_def)
  show ?thesis using a b c
    by (simp add: failedText_errors sample_parse initialScan_def failedValue_def exitValue_def
        getOpt_def)
qed

subsection \<open>The example file\<close>

text \<open>
  Claim C7. For the four-record example file, with a metadata record (id \<^verbatim>\<open>abc\<close>,
  timestamp \<open>T0\<close>, cwd \<^verbatim>\<open>/tmp\<close>, originator \<^verbatim>\<open>cli\<close>), a user message one second later, a
  call of the tool \<^verbatim>\<open>shell\<close> with call id \<^verbatim>\<open>1\<close> two seconds later and its output
  \<^verbatim>\<open>{"metadata":{"exit_code":1}}\<close> three seconds later, the File Summarizer yields
  messages 1, toolCalls 1, errors 1, startedAt \<open>T0\<close>, endedAt \<open>T0\<close> plus three seconds,
  durationSec 3, the tool histogram \<^verbatim>\<open>{"shell":1}\<close> and, as the daily key, the calendar
  date of \<open>T0\<close>: the ten characters before the \<^verbatim>\<open>T\<close> of its ISO form. The hypotheses say
  what the built-ins return on the texts of the example: the four lines and the
  output parse to the records, the timestamps parse to \<open>T0\<close>, \<open>T0 + 1000\<close>, \<open>T0 + 2000\<close>
  and \<open>T0 + 3000\<close> milliseconds, and an ISO string parses back to its date.
\<close>

theorem example_file:
  assumes parse: "JSON_parse js l0 = Some (metaRecord t0)"
      "JSON_parse js l1 = Some (userRecord t1 content)"
      "JSON_parse js l2 = Some (callRecord t2 args)"
      "JSON_parse js l3 = Some (outputRecord t3 exitText)"
      "JSON_parse js exitText = Some exitValue"
    and dates: "Date_parse js t0 = Some T0"
      "Date_parse js t1 = Some (T0 + 1000)"
      "Date_parse js t2 = Some (T0 + 2000)"
      "Date_parse js t3 = Some (T0 + 3000)"
    and iso: "Date_parse js (toISOString js T0) = Some T0"
      "Date_parse js (toISOString js (T0 + 3000)) = Some (T0 + 3000)"
      "toISOString js T0 = day @ CHR ''T'' # time"
      "length day = 10"
    and nonempty: "toISOString js (T0 + 1000) \<noteq> []" "toISOString js (T0 + 2000) \<noteq> []"
      "toISOString js (T0 + 3000) \<noteq> []"
  shows "buildFileIndex js file [l0, l1, l2, l3] =
           \<lparr> sessionId = basename file ''.jsonl'',
             summary = \<lparr> id' = JStr ''abc'', file' = file,
                         startedAt = Some (toISOString js T0),
                         endedAt = Some (toISOString js (T0 + 3000)),
                         durationSec = Some 3,
                         cwd = Some ''/tmp'', originator = Some ''cli'', cliVersion = None,
                         messages = 1, toolCalls = 1, errors = 1 \<rparr>,
             tools = [(''shell'', 1)],
             dailyKey = day \<rparr>"
proof -
  have ne0: "toISOString js T0 \<noteq> []" using iso(3) by simp
  let ?s = "foldl (scanLine js (basename file ''.jsonl'') file)
              (initialScan (basename file ''.jsonl'') file) [l0, l1, l2, l3]"
  have s: "scan.summary ?s = \<lparr> id' = JStr ''abc'', file' = file,
                         startedAt = Some (toISOString js T0), endedAt = None, durationSec = None,
                         cwd = Some ''/tmp'', originator = Some ''cli'', cliVersion = None,
                         messages = 1, toolCalls = 1, errors = 1 \<rparr>"
      "firstTs ?s = Some (toISOString js T0)"
      "lastTs ?s = Some (toISOString js (T0 + 3000))"
      "scan.tools ?s = [(''shell'', 1)]"
    by (simp_all add: scan_meta[OF parse(1) dates(1) ne0] scan_user[OF parse(2) dates(2) nonempty(1)]
        scan_call[OF parse(3) dates(3) nonempty(2)] scan_output[OF parse(4) dates(4) nonempty(3)]
        exitText_errors[OF parse(5)] initialScan_def addCount_def ne0)
  have fin: "finishSummary js ?s = \<lparr> id' = JStr ''abc'', file' = file,
                         startedAt = Some (toISOString js T0),
                         endedAt = Some (toISOString js (T0 + 3000)),
                         durationSec = Some 3,
                         cwd = Some ''/tmp'', originator = Some ''cli'', cliVersion = None,
                         messages = 1, toolCalls = 1, errors = 1 \<rparr>"
    unfolding finishSummary_def Let_def s
    by (simp add: ne0 iso(1,2) nonempty(3))
  show ?thesis
    unfolding buildFileIndex_def Let_def fin s
    by (simp add: dayKeyFromIso_def iso(3,4))
qed

text \<open>The example with \<open>T0\<close> the first of January 2024, midnight UTC.\<close>

theorem example_file_witness:
  "buildFileIndex sampleJs ''/s/abc.jsonl'' [metaLine, userLine, callLine, outputLine] =
     \<lparr> sessionId = ''abc'',
       summary = \<lparr> id' = JStr ''abc'', file' = ''/s/abc.jsonl'',
                   startedAt = Some ''2024-01-01T00:00:00.000Z'',
                   endedAt = Some ''2024-01-01T00:00:03.000Z'',
                   durationSec = Some 3,
                   cwd = Some ''/tmp'', originator = Some ''cli'', cliVersion = None,
                   messages = 1, toolCalls = 1, errors = 1 \<rparr>,
       tools = [(''shell'', 1)],
       dailyKey = ''2024-01-01'' \<rparr>"
proof -
  have d: "Date_parse sampleJs ''2024-01-01T00:00:01.000Z'' = Some (1704067200000 + 1000)"
      "Date_parse sampleJs ''2024-01-01T00:00:02.000Z'' = Some (1704067200000 + 2000)"
      "Date_parse sampleJs ''2024-01-01T00:00:03.000Z'' = Some (1704067200000 + 3000)"
    by (simp_all add: sample_dates)
  have split: "toISOString sampleJs 1704067200000 = ''2024-01-01'' @ CHR ''T'' # ''00:00:00.000Z''"
    by (simp add: sample_iso)
  have len: "length ''2024-01-01'' = 10" by simp
  have rt: "Date_parse sampleJs (toISOString sampleJs 1704067200000) = Some 1704067200000"
      "Date_parse sampleJs (toISOString sampleJs (1704067200000 + 3000)) = Some (1704067200000 + 3000)"
    by (simp_all add: sample_iso sample_dates)
  have ne: "toISOString sampleJs (1704067200000 + 1000) \<noteq> []"
      "toISOString sampleJs (1704067200000 + 2000) \<noteq> []"
      "toISOString sampleJs (1704067200000 + 3000) \<noteq> []"
    by (simp_all add: sample_iso)
  show ?thesis
    using example_file[OF sample_parse(1,2,3,4,7) sample_dates(1) d rt split len ne,
        of "''/s/abc.jsonl''"]
    by (simp add: basename_def sample_iso)
qed

text \<open>
  Claim C1 says that a session-metadata record replaces the identity fields of the
  summary only and keeps the counters. In the code \<^verbatim>\<open>summarizeFromMeta\<close> builds a new
  summary with all three counters at zero, and line 155 assigns it: a file with one
  user message has one message, and the same file with a metadata record appended
  has none.
\<close>

theorem metadata_resets_counters:
  "messages (FileIndex.summary (buildFileIndex sampleJs ''/s/abc.jsonl'' [userLine])) = 1
   \<and> messages (FileIndex.summary (buildFileIndex sampleJs ''/s/abc.jsonl'' [userLine, metaLine])) = 0"
  by (simp add: buildFileIndex_def finishSummary_def Let_def
      scan_user[OF sample_parse(2) sample_dates(2)] scan_meta[OF sample_parse(1) sample_dates(1)]
      sample_iso initialScan_def sample_dates)

section \<open>The Index Builder: properties\<close>

lemma sameAcc_refl: "sameAcc p p"
  by (simp add: sameAcc_def)

lemma sameAcc_absorb: "sameAcc p q \<Longrightarrow> sameAcc (absorb sm h k p) (absorb sm h k q)"
  by (simp add: sameAcc_def absorb_def)

lemma files_absorb: "pass.files (absorb sm h k p) = pass.files p"
  and reads_absorb: "pass.reads (absorb sm h k p) = pass.reads p"
  by (simp_all add: absorb_def)

lemma sameAcc_reuseFile: "sameAcc p q \<Longrightarrow> sameAcc (reuseFile w m p f) (reuseFile w m q f)"
  by (auto simp: reuseFile_def sameAcc_absorb split: option.splits)

lemma reuseFile_cong:
  "(stat w f \<noteq> None \<Longrightarrow> map_of m f = map_of m' f) \<Longrightarrow> reuseFile w m p f = reuseFile w m' p f"
  by (auto simp: reuseFile_def split: option.splits)

lemma reuseAll_cong:
  "(\<And>f. f \<in> set fs \<Longrightarrow> stat w f \<noteq> None \<Longrightarrow> map_of m f = map_of m' f) \<Longrightarrow>
     foldl (reuseFile w m) p fs = foldl (reuseFile w m') p fs"
proof (induction fs arbitrary: p)
  case Nil
  then show ?case by simp
next
  case (Cons f fs)
  have "reuseFile w m p f = reuseFile w m' p f"
    using Cons.prems by (intro reuseFile_cong) simp
  then show ?case using Cons by simp
qed

lemma reuseAll_stat_cong:
  "(\<And>f. f \<in> set fs \<Longrightarrow> stat w' f = stat w f) \<Longrightarrow>
     foldl (reuseFile w' m) p fs = foldl (reuseFile w m) p fs"
proof (induction fs arbitrary: p)
  case Nil
  then show ?case by simp
next
  case (Cons f fs)
  have "reuseFile w' m p f = reuseFile w m p f"
    using Cons.prems by (simp add: reuseFile_def)
  then show ?case using Cons by simp
qed

text \<open>A pass in which every file that can be stat'ed has a manifest entry with its
  fingerprint: nothing is read, the manifest stays, and each file's entry is absorbed.\<close>

lemma indexFile_reuse:
  assumes "\<And>st. stat w f = Some st \<Longrightarrow> reusable (map_of (pass.files p) f) st"
  shows "indexFile js w p f = reuseFile w (pass.files p) p f"
  using assms by (auto simp: indexFile_def reuseFile_def Let_def split: option.splits)

lemma files_reuseFile: "pass.files (reuseFile w m p f) = pass.files p"
  and reads_reuseFile: "pass.reads (reuseFile w m p f) = pass.reads p"
  by (auto simp: reuseFile_def files_absorb reads_absorb split: option.splits)

lemma pass_all_reused:
  assumes "\<And>f st. f \<in> set fs \<Longrightarrow> stat w f = Some st \<Longrightarrow> reusable (map_of (pass.files p) f) st"
  shows "foldl (indexFile js w) p fs = foldl (reuseFile w (pass.files p)) p fs"
  using assms
proof (induction fs arbitrary: p)
  case Nil
  then show ?case by simp
next
  case (Cons f fs)
  have step: "indexFile js w p f = reuseFile w (pass.files p) p f"
    using Cons.prems by (intro indexFile_reuse) simp
  have files: "pass.files (reuseFile w (pass.files p) p f) = pass.files p"
    by (rule files_reuseFile)
  have "foldl (indexFile js w) (reuseFile w (pass.files p) p f) fs
      = foldl (reuseFile w (pass.files (reuseFile w (pass.files p) p f)))
          (reuseFile w (pass.files p) p f) fs"
    using Cons.prems by (intro Cons.IH) (simp add: files)
  then show ?case using step files by simp
qed

lemma foldl_reuseFile_files: "pass.files (foldl (reuseFile w m) p fs) = pass.files p"
  and foldl_reuseFile_reads: "pass.reads (foldl (reuseFile w m) p fs) = pass.reads p"
  by (induction fs arbitrary: p) (simp_all add: files_reuseFile reads_reuseFile)

lemma sameAcc_foldl_reuseFile:
  "sameAcc p q \<Longrightarrow> sameAcc (foldl (reuseFile w m) p fs) (foldl (reuseFile w m) q fs)"
  by (induction fs arbitrary: p q) (simp_all add: sameAcc_reuseFile)

text \<open>After any pass, every file that can be stat'ed has an entry with its fingerprint,
  and the accumulators are what absorbing those entries gives.\<close>

lemma pass_fixpoint:
  "(\<forall>f \<in> set fs. \<forall>st. stat w f = Some st \<longrightarrow>
        reusable (map_of (pass.files (foldl (indexFile js w) p fs)) f) st)
   \<and> sameAcc (foldl (indexFile js w) p fs)
        (foldl (reuseFile w (pass.files (foldl (indexFile js w) p fs))) p fs)"
proof (induction fs rule: rev_induct)
  case Nil
  then show ?case by (simp add: sameAcc_refl)
next
  case (snoc f fs)
  let ?p1 = "foldl (indexFile js w) p fs"
  let ?m = "pass.files ?p1"
  have IHa: "\<And>g st. g \<in> set fs \<Longrightarrow> stat w g = Some st \<Longrightarrow> reusable (map_of ?m g) st"
    using snoc.IH by blast
  have IHb: "sameAcc ?p1 (foldl (reuseFile w ?m) p fs)"
    using snoc.IH by blast
  show ?case
  proof (cases "stat w f")
    case None
    then have same: "indexFile js w ?p1 f = ?p1" by (simp add: indexFile_def)
    have "reuseFile w ?m q f = q" for q using None by (simp add: reuseFile_def)
    then show ?thesis using same IHa IHb None by auto
  next
    case (Some st)
    show ?thesis
    proof (cases "reusable (map_of ?m f) st")
      case True
      have step: "indexFile js w ?p1 f = reuseFile w ?m ?p1 f"
        using True Some by (intro indexFile_reuse) simp
      have files: "pass.files (reuseFile w ?m ?p1 f) = ?m" by (rule files_reuseFile)
      have "sameAcc (reuseFile w ?m ?p1 f) (reuseFile w ?m (foldl (reuseFile w ?m) p fs) f)"
        using IHb by (rule sameAcc_reuseFile)
      then show ?thesis using step files IHa True Some by auto
    next
      case False
      let ?built = "buildFileIndex js f (readLines w f)"
      let ?e = "\<lparr> sessionId = FileIndex.sessionId ?built, summary = FileIndex.summary ?built,
                   tools = FileIndex.tools ?built, dailyKey = FileIndex.dailyKey ?built,
                   mtimeMs = Stats.mtimeMs st, size' = Stats.size' st \<rparr>"
      let ?m' = "AList.update f ?e ?m"
      let ?p2 = "indexFile js w ?p1 f"
      have files: "pass.files ?p2 = ?m'"
        using Some False by (simp add: indexFile_def Let_def files_absorb)
      have acc: "sameAcc ?p2 (absorb (FileIndex.summary ?built) (FileIndex.tools ?built)
                   (FileIndex.dailyKey ?built) ?p1)"
        using Some False by (simp add: indexFile_def Let_def sameAcc_def absorb_def)
      have notin: "g \<noteq> f" if "g \<in> set fs" "stat w g \<noteq> None" for g
        using that IHa False Some by auto
      have lookup: "map_of ?m' g = (if g = f then Some ?e else map_of ?m g)" for g
        by (simp add: update_conv')
      have a: "\<forall>g \<in> set (fs @ [f]). \<forall>st'. stat w g = Some st' \<longrightarrow> reusable (map_of ?m' g) st'"
        using IHa Some by (auto simp: lookup reusable_def)
      have "foldl (reuseFile w ?m') p fs = foldl (reuseFile w ?m) p fs"
        using notin by (intro reuseAll_cong) (simp add: lookup)
      moreover have "reuseFile w ?m' q f = absorb (FileIndex.summary ?built) (FileIndex.tools ?built)
                   (FileIndex.dailyKey ?built) q" for q
        using Some by (simp add: reuseFile_def lookup)
      ultimately have b: "sameAcc ?p2 (foldl (reuseFile w ?m') p (fs @ [f]))"
        using acc IHb sameAcc_absorb[OF IHb] by (simp add: sameAcc_def)
      show ?thesis using a b files by simp
    qed
  qed
qed

lemma map_of_filter_keys:
  "k \<in> S \<Longrightarrow> map_of (filter (\<lambda>(k', v). k' \<in> S) m) k = map_of m k"
  by (induction m) auto

lemma sameAcc_sym: "sameAcc p q \<Longrightarrow> sameAcc q p"
  and sameAcc_trans: "sameAcc p q \<Longrightarrow> sameAcc q r \<Longrightarrow> sameAcc p r"
  by (simp_all add: sameAcc_def)

text \<open>
  Claim C6. Let the index builder run on a corpus, and run again on a world in which
  the same files are found with the same fingerprints (what \<^verbatim>\<open>stat\<close> returns), the
  directories are the same and the manifest is the one the first run wrote. Then the
  second snapshot is the first one with a new generation timestamp, and the second
  run reads no log file: every file that can be stat'ed takes the branch that reuses
  the manifest entry. The contents of the files are not constrained in the second
  world.
\<close>

theorem rebuild_idempotent:
  assumes run1: "buildOrUpdateIndex js w = (snap1, reads1, w1)"
    and listing: "listJsonlFiles w' = listJsonlFiles w"
    and fingerprints: "\<forall>f \<in> set (listJsonlFiles w). stat w' f = stat w f"
    and dirs: "getSessionsDir w' = getSessionsDir w" "getCacheDir w' = getCacheDir w"
    and persisted: "manifestJson w' = manifestJson w1"
    and run2: "buildOrUpdateIndex js w' = (snap2, reads2, w2)"
  shows "snap2 = snap1\<lparr> generatedAt := toISOString js (now w') \<rparr> \<and> reads2 = []"
proof -
  define found where "found = listJsonlFiles w"
  define prev1 where "prev1 =
     (case manifestJson w of
        None \<Rightarrow> []
      | Some prevManifest \<Rightarrow>
          if Manifest.version prevManifest = INDEX_VERSION
             \<and> Manifest.sessionsDir prevManifest = getSessionsDir w
          then Manifest.files prevManifest else [])"
  define p0 where "p0 = (\<lambda>m. \<lparr> pass.sessions = [], tools = [], daily = [], files = m, reads = [] \<rparr>)"
  define P1 where "P1 = foldl (indexFile js w) (p0 prev1) found"
  define m1 where "m1 = pass.files P1"
  define m2 where "m2 = filter (\<lambda>(file, e). file \<in> set found) m1"
  define P2 where "P2 = foldl (indexFile js w') (p0 m2) found"
  have snap1: "snap1 =
            \<lparr> IndexSnapshot.version = INDEX_VERSION,
              generatedAt = toISOString js (now w),
              sessionsDir = getSessionsDir w,
              cacheDir = getCacheDir w,
              totals =
                \<lparr> Totals.files = length found,
                  sessions = length (pass.sessions P1),
                  messages = foldl (\<lambda>a s. a + SessionSummary.messages s) 0 (pass.sessions P1),
                  toolCalls = foldl (\<lambda>a s. a + SessionSummary.toolCalls s) 0 (pass.sessions P1),
                  errors = foldl (\<lambda>a s. a + SessionSummary.errors s) 0 (pass.sessions P1) \<rparr>,
              tools = pass.tools P1,
              daily = pass.daily P1,
              sessions = pass.sessions P1 \<rparr>"
    and man1: "manifestJson w1 = Some \<lparr> Manifest.version = INDEX_VERSION,
                       sessionsDir = getSessionsDir w, files = m2 \<rparr>"
    using run1 unfolding buildOrUpdateIndex_def Let_def found_def prev1_def p0_def P1_def m1_def m2_def
    by auto
  have prev2: "(case manifestJson w' of
        None \<Rightarrow> []
      | Some prevManifest \<Rightarrow>
          if Manifest.version prevManifest = INDEX_VERSION
             \<and> Manifest.sessionsDir prevManifest = getSessionsDir w
          then Manifest.files prevManifest else []) = m2"
    by (simp add: persisted man1)
  have snap2: "snap2 =
            \<lparr> IndexSnapshot.version = INDEX_VERSION,
              generatedAt = toISOString js (now w'),
              sessionsDir = getSessionsDir w,
              cacheDir = getCacheDir w,
              totals =
                \<lparr> Totals.files = length found,
                  sessions = length (pass.sessions P2),
                  messages = foldl (\<lambda>a s. a + SessionSummary.messages s) 0 (pass.sessions P2),
                  toolCalls = foldl (\<lambda>a s. a + SessionSummary.toolCalls s) 0 (pass.sessions P2),
                  errors = foldl (\<lambda>a s. a + SessionSummary.errors s) 0 (pass.sessions P2) \<rparr>,
              tools = pass.tools P2,
              daily = pass.daily P2,
              sessions = pass.sessions P2 \<rparr>"
    and reads2: "reads2 = pass.reads P2"
    using run2 unfolding buildOrUpdateIndex_def Let_def listing dirs
    unfolding prev2 found_def[symmetric] P2_def p0_def
    by auto
  have fixp: "\<And>f st. f \<in> set found \<Longrightarrow> stat w f = Some st \<Longrightarrow> reusable (map_of m1 f) st"
    and acc1: "sameAcc P1 (foldl (reuseFile w m1) (p0 prev1) found)"
    using pass_fixpoint[of found w js "p0 prev1"] unfolding P1_def[symmetric] m1_def[symmetric]
    by blast+
  have look: "map_of m2 f = map_of m1 f" if "f \<in> set found" for f
    unfolding m2_def using that by (rule map_of_filter_keys)
  have stat': "stat w' f = stat w f" if "f \<in> set found" for f
    using that fingerprints by (simp add: found_def)
  have files0: "pass.files (p0 m2) = m2" by (simp add: p0_def)
  have "P2 = foldl (reuseFile w' (pass.files (p0 m2))) (p0 m2) found"
    unfolding P2_def
    by (intro pass_all_reused) (simp add: files0 look stat' fixp)
  then have P2: "P2 = foldl (reuseFile w' m2) (p0 m2) found" by (simp add: files0)
  have r: "pass.reads P2 = []"
    unfolding P2 by (simp add: foldl_reuseFile_reads p0_def)
  have "foldl (reuseFile w' m2) (p0 m2) found = foldl (reuseFile w m2) (p0 m2) found"
    by (intro reuseAll_stat_cong) (simp add: stat')
  also have "\<dots> = foldl (reuseFile w m1) (p0 m2) found"
    by (intro reuseAll_cong) (simp add: look)
  finally have "P2 = foldl (reuseFile w m1) (p0 m2) found" using P2 by simp
  moreover have "sameAcc (foldl (reuseFile w m1) (p0 m2) found)
                   (foldl (reuseFile w m1) (p0 prev1) found)"
    by (intro sameAcc_foldl_reuseFile) (simp add: sameAcc_def p0_def)
  ultimately have "sameAcc P2 P1"
    using acc1 sameAcc_sym sameAcc_trans by metis
  then show ?thesis
    unfolding snap1 snap2 reads2 r by (simp add: sameAcc_def)
qed

lemma world_after_build:
  "listJsonlFiles (snd (snd (buildOrUpdateIndex js w))) = listJsonlFiles w"
  "stat (snd (snd (buildOrUpdateIndex js w))) = stat w"
  "getSessionsDir (snd (snd (buildOrUpdateIndex js w))) = getSessionsDir w"
  "getCacheDir (snd (snd (buildOrUpdateIndex js w))) = getCacheDir w"
  by (simp_all add: buildOrUpdateIndex_def Let_def)

lemma sample_reads: "fst (snd (buildOrUpdateIndex sampleJs sampleWorld)) = [''/s/abc.jsonl'']"
  by (simp add: buildOrUpdateIndex_def Let_def sampleWorld_def indexFile_def reusable_def
      reads_absorb)

text \<open>The first build of the sample world reads its log file; the build of the later
  world, where every file is empty, reads nothing and returns the same snapshot.\<close>

theorem rebuild_idempotent_witness:
  "fst (snd (buildOrUpdateIndex sampleJs sampleWorld)) = [''/s/abc.jsonl'']
   \<and> fst (buildOrUpdateIndex sampleJs laterWorld)
       = (fst (buildOrUpdateIndex sampleJs sampleWorld))
           \<lparr> generatedAt := ''2024-01-01T00:00:00.000Z'' \<rparr>
   \<and> fst (snd (buildOrUpdateIndex sampleJs laterWorld)) = []"
proof -
  let ?r1 = "buildOrUpdateIndex sampleJs sampleWorld"
  let ?r2 = "buildOrUpdateIndex sampleJs laterWorld"
  have run1: "?r1 = (fst ?r1, fst (snd ?r1), snd (snd ?r1))" by simp
  have run2: "?r2 = (fst ?r2, fst (snd ?r2), snd (snd ?r2))" by simp
  have listing: "listJsonlFiles laterWorld = listJsonlFiles sampleWorld"
    by (simp add: laterWorld_def world_after_build)
  have fingerprints: "\<forall>f \<in> set (listJsonlFiles sampleWorld). stat laterWorld f = stat sampleWorld f"
    by (simp add: laterWorld_def world_after_build)
  have dirs: "getSessionsDir laterWorld = getSessionsDir sampleWorld"
      "getCacheDir laterWorld = getCacheDir sampleWorld"
    by (simp_all add: laterWorld_def world_after_build)
  have persisted: "manifestJson laterWorld = manifestJson (snd (snd ?r1))"
    by (simp add: laterWorld_def)
  have clock: "toISOString sampleJs (now laterWorld) = ''2024-01-01T00:00:00.000Z''"
    by (simp add: laterWorld_def sample_iso)
  show ?thesis
    using rebuild_idempotent[OF run1 listing fingerprints dirs persisted run2] sample_reads
    unfolding clock by simp
qed

lemma foldl_plus: "foldl (\<lambda>a s. a + f s) a xs = a + sum_list (map f xs)" for a :: nat
  by (induction xs arbitrary: a) simp_all

text \<open>
  The first half of claim C2 holds for every snapshot: the session count and the sums
  of the message, tool-call and error counts of the sessions are the totals.
\<close>

theorem totals_match_sessions:
  "Totals.sessions (totals (fst (buildOrUpdateIndex js w)))
     = length (IndexSnapshot.sessions (fst (buildOrUpdateIndex js w)))
   \<and> Totals.messages (totals (fst (buildOrUpdateIndex js w)))
     = sum_list (map messages (IndexSnapshot.sessions (fst (buildOrUpdateIndex js w))))
   \<and> Totals.toolCalls (totals (fst (buildOrUpdateIndex js w)))
     = sum_list (map toolCalls (IndexSnapshot.sessions (fst (buildOrUpdateIndex js w))))
   \<and> Totals.errors (totals (fst (buildOrUpdateIndex js w)))
     = sum_list (map errors (IndexSnapshot.sessions (fst (buildOrUpdateIndex js w))))"
  by (simp add: buildOrUpdateIndex_def Let_def foldl_plus)

lemma update_total:
  "histogramTotal (AList.update k v h) + (case map_of h k of None \<Rightarrow> 0 | Some c \<Rightarrow> c)
     = histogramTotal h + v"
  by (induction h) (auto simp: histogramTotal_def)

lemma addCount_total: "histogramTotal (addCount h k v) = histogramTotal h + v"
  using update_total[of k "(case map_of h k of None \<Rightarrow> 0 | Some c \<Rightarrow> c) + v" h]
  by (simp add: addCount_def)

lemma mergeTools_total: "histogramTotal (mergeTools h add) = histogramTotal h + histogramTotal add"
proof -
  have "histogramTotal (foldl (\<lambda>t (k, v). addCount t k v) h add)
      = histogramTotal h + sum_list (map snd add)"
    by (induction add arbitrary: h) (auto simp: addCount_total)
  then show ?thesis by (simp add: mergeTools_def histogramTotal_def)
qed

lemma noteTimestamp_counts:
  "scan.summary (noteTimestamp js obj s) = scan.summary s"
  "scan.tools (noteTimestamp js obj s) = scan.tools s"
  by (simp_all add: noteTimestamp_def Let_def)

lemma onSessionMeta_counts:
  "scan.tools (onSessionMeta js sid file obj s) = scan.tools s"
  "toolCalls (scan.summary (onSessionMeta js sid file obj s)) =
     (if isSessionMeta obj then 0 else toolCalls (scan.summary s))"
  by (simp_all add: onSessionMeta_def isSessionMeta_def summarizeFromMeta_def Let_def)

lemma onEventMsg_counts:
  "scan.tools (onEventMsg obj s) = scan.tools s"
  "toolCalls (scan.summary (onEventMsg obj s)) = toolCalls (scan.summary s)"
  by (simp_all add: onEventMsg_def)

lemma onResponseItem_counts:
  "histogramTotal (scan.tools (onResponseItem js obj s)) =
     histogramTotal (scan.tools s) + (if isToolCall obj then 1 else 0)"
  "toolCalls (scan.summary (onResponseItem js obj s)) =
     toolCalls (scan.summary s) + (if isToolCall obj then 1 else 0)"
  by (auto simp: onResponseItem_def isToolCall_def Let_def addCount_total)

lemma meta_not_call: "isSessionMeta obj \<Longrightarrow> \<not> isToolCall obj"
  by (simp add: isSessionMeta_def isToolCall_def)

lemma scan_consistent:
  assumes "metaBeforeCalls js seen lines"
    and "histogramTotal (scan.tools s) = toolCalls (scan.summary s)"
    and "\<not> seen \<Longrightarrow> histogramTotal (scan.tools s) = 0"
  shows "histogramTotal (scan.tools (foldl (scanLine js sid file) s lines))
           = toolCalls (scan.summary (foldl (scanLine js sid file) s lines))"
  using assms
proof (induction lines arbitrary: s seen)
  case Nil
  then show ?case by simp
next
  case (Cons line rest)
  let ?obj = "safeJsonParse js line"
  show ?case
  proof (cases "truthy ?obj")
    case False
    then have "scanLine js sid file s line = s" by (simp add: scanLine_def)
    moreover have "metaBeforeCalls js seen rest" using Cons.prems(1) False by simp
    ultimately show ?thesis using Cons.IH[of seen s] Cons.prems by simp
  next
    case True
    let ?s' = "scanLine js sid file s line"
    have s': "?s' = onResponseItem js ?obj (onEventMsg ?obj
                      (onSessionMeta js sid file ?obj (noteTimestamp js ?obj s)))"
      using True by (simp add: scanLine_def Let_def)
    have safe: "seen \<Longrightarrow> \<not> isSessionMeta ?obj"
      and rest: "metaBeforeCalls js (seen \<or> isToolCall ?obj) rest"
      using Cons.prems(1) True by (simp_all add: Let_def)
    have tools: "histogramTotal (scan.tools ?s') =
        histogramTotal (scan.tools s) + (if isToolCall ?obj then 1 else 0)"
      unfolding s' by (simp add: onResponseItem_counts onEventMsg_counts onSessionMeta_counts
          noteTimestamp_counts)
    have calls: "toolCalls (scan.summary ?s') =
        (if isSessionMeta ?obj then 0 else toolCalls (scan.summary s))
          + (if isToolCall ?obj then 1 else 0)"
      unfolding s' by (simp add: onResponseItem_counts onEventMsg_counts onSessionMeta_counts
          noteTimestamp_counts)
    have zero: "isSessionMeta ?obj \<Longrightarrow> histogramTotal (scan.tools s) = 0"
      using safe Cons.prems(3) by blast
    have inv1: "histogramTotal (scan.tools ?s') = toolCalls (scan.summary ?s')"
      using tools calls zero Cons.prems(2) by auto
    have inv2: "\<not> (seen \<or> isToolCall ?obj) \<Longrightarrow> histogramTotal (scan.tools ?s') = 0"
      using tools Cons.prems(3) by auto
    show ?thesis using Cons.IH[OF rest inv1 inv2] by simp
  qed
qed

lemma finishSummary_toolCalls: "toolCalls (finishSummary js s) = toolCalls (scan.summary s)"
  by (simp add: finishSummary_def Let_def split: option.splits)

lemma buildFileIndex_consistent:
  assumes "metaBeforeCalls js False lines"
  shows "histogramTotal (FileIndex.tools (buildFileIndex js file lines))
           = toolCalls (FileIndex.summary (buildFileIndex js file lines))"
  using scan_consistent[OF assms, of "initialScan (basename file ''.jsonl'') file"
      "basename file ''.jsonl''" "file"]
  by (simp add: buildFileIndex_def Let_def finishSummary_toolCalls initialScan_def histogramTotal_def)

lemma list_all_update:
  "list_all P (map snd m) \<Longrightarrow> P v \<Longrightarrow> list_all P (map snd (AList.update k v m))"
  by (induction m) auto

lemma list_all_lookup:
  "list_all P (map snd m) \<Longrightarrow> map_of m k = Some v \<Longrightarrow> P v"
  by (induction m) (auto split: if_splits)

lemma list_all_filter_keys:
  "list_all P (map snd m) \<Longrightarrow> list_all P (map snd (filter Q m))"
  by (induction m) auto

lemma absorb_consistent:
  assumes "consistentPass p" and "histogramTotal h = toolCalls sm"
  shows "consistentPass (absorb sm h k p)"
  using assms by (simp add: consistentPass_def absorb_def mergeTools_total)

lemma indexFile_consistent:
  assumes "consistentPass p" and "metaBeforeCalls js False (readLines w f)"
  shows "consistentPass (indexFile js w p f)"
proof (cases "stat w f")
  case None
  then show ?thesis using assms(1) by (simp add: indexFile_def)
next
  case (Some st)
  show ?thesis
  proof (cases "reusable (map_of (pass.files p) f) st")
    case True
    then obtain e where e: "map_of (pass.files p) f = Some e"
      by (auto simp: reusable_def split: option.splits)
    have "consistentEntry e"
      using assms(1) e list_all_lookup by (fastforce simp: consistentPass_def)
    then have "consistentPass (absorb (FileIndex.summary e) (FileIndex.tools e) (FileIndex.dailyKey e) p)"
      using assms(1) by (intro absorb_consistent) (simp_all add: consistentEntry_def)
    then show ?thesis using True Some e by (simp add: indexFile_def)
  next
    case False
    let ?built = "buildFileIndex js f (readLines w f)"
    have b: "histogramTotal (FileIndex.tools ?built) = toolCalls (FileIndex.summary ?built)"
      using assms(2) by (rule buildFileIndex_consistent)
    have p': "consistentPass (absorb (FileIndex.summary ?built) (FileIndex.tools ?built)
                 (FileIndex.dailyKey ?built) p)"
      using assms(1) b by (rule absorb_consistent)
    show ?thesis
      using False Some p' b
      by (simp add: indexFile_def Let_def consistentPass_def list_all_update consistentEntry_def)
  qed
qed

lemma pass_consistent:
  assumes "consistentPass p" and "list_all (\<lambda>f. metaBeforeCalls js False (readLines w f)) fs"
  shows "consistentPass (foldl (indexFile js w) p fs)"
  using assms by (induction fs arbitrary: p) (simp_all add: indexFile_consistent)

text \<open>
  The second half of claim C2 holds when every log file keeps its session metadata
  before its tool calls and the manifest that is read is consistent: then the values
  of the tool histogram of the snapshot sum to the total of tool calls, and the
  manifest that is written is consistent again.
\<close>

theorem histogram_matches_tool_calls:
  assumes "list_all (\<lambda>f. metaBeforeCalls js False (readLines w f)) (listJsonlFiles w)"
    and "consistentManifest (manifestJson w)"
  shows "histogramTotal (IndexSnapshot.tools (fst (buildOrUpdateIndex js w)))
           = Totals.toolCalls (totals (fst (buildOrUpdateIndex js w)))
         \<and> consistentManifest (manifestJson (snd (snd (buildOrUpdateIndex js w))))"
proof -
  define prev where "prev =
     (case manifestJson w of
        None \<Rightarrow> []
      | Some prevManifest \<Rightarrow>
          if Manifest.version prevManifest = INDEX_VERSION
             \<and> Manifest.sessionsDir prevManifest = getSessionsDir w
          then Manifest.files prevManifest else [])"
  define P where "P = foldl (indexFile js w)
        \<lparr> pass.sessions = [], tools = [], daily = [], files = prev, reads = [] \<rparr> (listJsonlFiles w)"
  have "list_all consistentEntry (map snd prev)"
    using assms(2) by (auto simp: prev_def consistentManifest_def split: option.splits)
  then have "consistentPass \<lparr> pass.sessions = [], tools = [], daily = [], files = prev, reads = [] \<rparr>"
    by (simp add: consistentPass_def histogramTotal_def)
  then have P: "consistentPass P"
    unfolding P_def using assms(1) by (rule pass_consistent)
  have "IndexSnapshot.tools (fst (buildOrUpdateIndex js w)) = pass.tools P"
    and "Totals.toolCalls (totals (fst (buildOrUpdateIndex js w)))
          = sum_list (map toolCalls (pass.sessions P))"
    and "manifestJson (snd (snd (buildOrUpdateIndex js w)))
          = Some \<lparr> Manifest.version = INDEX_VERSION, sessionsDir = getSessionsDir w,
                   files = filter (\<lambda>(file, e). file \<in> set (listJsonlFiles w)) (pass.files P) \<rparr>"
    by (simp_all add: buildOrUpdateIndex_def Let_def P_def prev_def foldl_plus)
  then show ?thesis
    using P by (simp add: consistentPass_def consistentManifest_def list_all_filter_keys)
qed

lemma parse_callLine:
  "safeJsonParse sampleJs callLine = callRecord ''2024-01-01T00:00:02.000Z'' (JStr ''{}'')"
  by (simp add: safeJsonParse_def sample_parse)

lemma parse_outputLine:
  "safeJsonParse sampleJs outputLine = outputRecord ''2024-01-01T00:00:03.000Z'' exitText"
  by (simp add: safeJsonParse_def sample_parse)

lemma sample_lines_safe:
  "metaBeforeCalls sampleJs False [metaLine, userLine, callLine, outputLine]"
  by (simp add: parse_metaLine parse_userLine parse_callLine parse_outputLine Let_def
      metaRecord_def userRecord_def callRecord_def outputRecord_def isSessionMeta_def
      isToolCall_def)

theorem histogram_matches_tool_calls_witness:
  "histogramTotal (IndexSnapshot.tools (fst (buildOrUpdateIndex sampleJs sampleWorld)))
     = Totals.toolCalls (totals (fst (buildOrUpdateIndex sampleJs sampleWorld)))
   \<and> list_all (\<lambda>f. metaBeforeCalls sampleJs False (readLines sampleWorld f))
        (listJsonlFiles sampleWorld)
   \<and> consistentManifest (manifestJson sampleWorld)"
proof -
  have l: "listJsonlFiles sampleWorld = [''/s/abc.jsonl'', ''/s/gone.jsonl'']"
    and r1: "readLines sampleWorld ''/s/abc.jsonl'' = [metaLine, userLine, callLine, outputLine]"
    and r2: "readLines sampleWorld ''/s/gone.jsonl'' = []"
    by (simp_all add: sampleWorld_def)
  have a: "list_all (\<lambda>f. metaBeforeCalls sampleJs False (readLines sampleWorld f))
        (listJsonlFiles sampleWorld)"
    unfolding l by (simp only: list.pred_inject r1 r2 sample_lines_safe metaBeforeCalls.simps(1) simp_thms)
  have b: "consistentManifest (manifestJson sampleWorld)"
    by (simp add: sampleWorld_def consistentManifest_def)
  show ?thesis using histogram_matches_tool_calls[OF a b] a b by simp
qed

lemma reset_file_index:
  "buildFileIndex sampleJs ''/s/abc.jsonl'' [callLine, metaLine] =
     \<lparr> sessionId = ''abc'',
       summary = \<lparr> id' = JStr ''abc'', file' = ''/s/abc.jsonl'',
                   startedAt = Some ''2024-01-01T00:00:00.000Z'',
                   endedAt = Some ''2024-01-01T00:00:00.000Z'',
                   durationSec = Some 0,
                   cwd = Some ''/tmp'', originator = Some ''cli'', cliVersion = None,
                   messages = 0, toolCalls = 0, errors = 0 \<rparr>,
       tools = [(''shell'', 1)],
       dailyKey = ''2024-01-01'' \<rparr>"
  by (simp add: buildFileIndex_def finishSummary_def Let_def basename_def
      scan_call[OF sample_parse(3) sample_dates(3)] scan_meta[OF sample_parse(1) sample_dates(1)]
      sample_iso initialScan_def sample_dates addCount_def dayKeyFromIso_def)

text \<open>
  Claim C2 says that the values of the tool histogram of every snapshot sum to
  \<open>totals.toolCalls\<close>. For a log file with a tool call followed by a metadata record,
  the histogram counts the call and the summary, reset by the metadata record, does
  not: the histogram sums to 1 and the total is 0.
\<close>

theorem histogram_exceeds_total:
  "IndexSnapshot.tools (fst (buildOrUpdateIndex sampleJs resetWorld)) = [(''shell'', 1)]
   \<and> map toolCalls (IndexSnapshot.sessions (fst (buildOrUpdateIndex sampleJs resetWorld))) = [0]
   \<and> Totals.toolCalls (totals (fst (buildOrUpdateIndex sampleJs resetWorld))) = 0"
  by (simp add: buildOrUpdateIndex_def Let_def resetWorld_def sampleWorld_def indexFile_def
      reusable_def reset_file_index absorb_def mergeTools_def addCount_def)

section \<open>Session lookup and \<^verbatim>\<open>getSessionTimeline\<close>: properties\<close>

subsection \<open>The sample worlds\<close>

lemma basename_abc: "basename ''/s/abc.jsonl'' ''.jsonl'' = ''abc''"
  by (simp add: basename_def)

lemma basename_gone: "basename ''/s/gone.jsonl'' ''.jsonl'' = ''gone''"
  by (simp add: basename_def)

lemma sample_file_id:
  "id' (FileIndex.summary (buildFileIndex sampleJs ''/s/abc.jsonl''
          [metaLine, userLine, callLine, outputLine])) = JStr ''abc''"
  by (simp add: buildFileIndex_def finishSummary_def Let_def
      scan_meta[OF sample_parse(1) sample_dates(1)] scan_user[OF sample_parse(2) sample_dates(2)]
      scan_call[OF sample_parse(3) sample_dates(3)] scan_output[OF sample_parse(4) sample_dates(4)]
      sample_iso sample_dates)

lemma sample_sessions:
  "IndexSnapshot.sessions (fst (buildOrUpdateIndex sampleJs sampleWorld)) =
     [FileIndex.summary (buildFileIndex sampleJs ''/s/abc.jsonl''
        [metaLine, userLine, callLine, outputLine])]"
  by (simp add: buildOrUpdateIndex_def Let_def sampleWorld_def indexFile_def reusable_def
      absorb_def)

lemma tidy_sessions:
  "IndexSnapshot.sessions (fst (buildOrUpdateIndex sampleJs tidyWorld)) =
     [FileIndex.summary (buildFileIndex sampleJs ''/s/abc.jsonl''
        [metaLine, userLine, callLine, outputLine])]"
  by (simp add: buildOrUpdateIndex_def Let_def tidyWorld_def sampleWorld_def indexFile_def
      reusable_def absorb_def)

lemma tidy_reads: "fst (snd (buildOrUpdateIndex sampleJs tidyWorld)) = [''/s/abc.jsonl'']"
  by (simp add: buildOrUpdateIndex_def Let_def tidyWorld_def sampleWorld_def indexFile_def
      reusable_def reads_absorb)

lemma world_after_build':
  "readLines (snd (snd (buildOrUpdateIndex js w))) = readLines w"
  "readable (snd (snd (buildOrUpdateIndex js w))) = readable w"
  "timelineJson (snd (snd (buildOrUpdateIndex js w))) = timelineJson w"
  "now (snd (snd (buildOrUpdateIndex js w))) = now w"
  by (simp_all add: buildOrUpdateIndex_def Let_def)

text \<open>The first request in a fresh process builds the index.\<close>

lemma getIndex_fresh:
  assumes "inMemoryIndex w = None" and "indexJson w = None" and "cacheDirOk w"
    and "list_all (readable w) (fst (snd (buildOrUpdateIndex js w)))"
  shows "getIndex js w =
           Inr (fst (buildOrUpdateIndex js w),
                (snd (snd (buildOrUpdateIndex js w)))
                  \<lparr> inMemoryIndex := Some (fst (buildOrUpdateIndex js w)) \<rparr>)"
proof -
  have "find (\<lambda>f. \<not> readable w f) (fst (snd (buildOrUpdateIndex js w))) = None"
    using assms(4) by (simp add: find_None_iff list_all_iff)
  then show ?thesis
    using assms(1,2,3)
    by (simp add: getIndex_def freshIndex_def awaitBuildOrUpdateIndex_def split: prod.splits)
qed

lemma getIndex_sample:
  "getIndex sampleJs sampleWorld =
     Inr (fst (buildOrUpdateIndex sampleJs sampleWorld),
          (snd (snd (buildOrUpdateIndex sampleJs sampleWorld)))
            \<lparr> inMemoryIndex := Some (fst (buildOrUpdateIndex sampleJs sampleWorld)) \<rparr>)"
  by (rule getIndex_fresh) (simp_all add: sample_reads, simp_all add: sampleWorld_def)

lemma getIndex_tidy:
  "getIndex sampleJs tidyWorld =
     Inr (fst (buildOrUpdateIndex sampleJs tidyWorld),
          (snd (snd (buildOrUpdateIndex sampleJs tidyWorld)))
            \<lparr> inMemoryIndex := Some (fst (buildOrUpdateIndex sampleJs tidyWorld)) \<rparr>)"
  by (rule getIndex_fresh) (simp_all add: tidy_reads, simp_all add: tidyWorld_def sampleWorld_def)

lemma getIndex_noCache: "getIndex sampleJs noCacheWorld = Inl (MkdirFailed ''/c'')"
  by (simp add: getIndex_def freshIndex_def awaitBuildOrUpdateIndex_def noCacheWorld_def
      tidyWorld_def sampleWorld_def)

lemma first_line_abc:
  "readLines w ''/s/abc.jsonl'' = [metaLine, userLine, callLine, outputLine] \<Longrightarrow>
     \<not> firstLineNames sampleJs w ''nope'' ''/s/abc.jsonl''"
  by (simp add: firstLineNames_def parse_metaLine metaRecord_def getOpt_def)

lemma find_nope:
  assumes "listJsonlFiles w = fs" and "set fs \<subseteq> {''/s/abc.jsonl'', ''/s/gone.jsonl''}"
  shows "find (\<lambda>f. basename f ''.jsonl'' = ''nope'') (listJsonlFiles w) = None"
  using assms basename_abc basename_gone by (auto simp: find_None_iff)

lemma lookup_nope_tidy:
  assumes "listJsonlFiles w = [''/s/abc.jsonl'']" and "readable w ''/s/abc.jsonl''"
    and "readLines w ''/s/abc.jsonl'' = [metaLine, userLine, callLine, outputLine]"
  shows "findFileForSession sampleJs w ''nope'' = Inr None"
  using assms first_line_abc[OF assms(3)]
  by (simp add: findFileForSession_def basename_abc)

lemma lookup_nope_sample:
  assumes "listJsonlFiles w = [''/s/abc.jsonl'', ''/s/gone.jsonl'']" and "readable w ''/s/abc.jsonl''"
    and "\<not> readable w ''/s/gone.jsonl''"
    and "readLines w ''/s/abc.jsonl'' = [metaLine, userLine, callLine, outputLine]"
  shows "findFileForSession sampleJs w ''nope'' = Inl (ReadFailed ''/s/gone.jsonl'')"
  using assms first_line_abc[OF assms(4)]
  by (simp add: findFileForSession_def basename_abc basename_gone)

lemma lookup_gone:
  assumes "listJsonlFiles w = [''/s/abc.jsonl'', ''/s/gone.jsonl'']"
  shows "findFileForSession sampleJs w ''gone'' = Inr (Some ''/s/gone.jsonl'')"
  using assms by (simp add: findFileForSession_def basename_abc basename_gone)

lemma served_tidy:
  "listJsonlFiles servedTidy = [''/s/abc.jsonl'']"
  "readable servedTidy ''/s/abc.jsonl''"
  "readLines servedTidy ''/s/abc.jsonl'' = [metaLine, userLine, callLine, outputLine]"
  by (simp_all add: servedTidy_def world_after_build world_after_build' tidyWorld_def
      sampleWorld_def)

lemma served_sample:
  "listJsonlFiles servedSample = [''/s/abc.jsonl'', ''/s/gone.jsonl'']"
  "readable servedSample ''/s/abc.jsonl''"
  "\<not> readable servedSample ''/s/gone.jsonl''"
  "readLines servedSample ''/s/abc.jsonl'' = [metaLine, userLine, callLine, outputLine]"
  "stat servedSample ''/s/gone.jsonl'' = None"
  by (simp_all add: servedSample_def world_after_build world_after_build' sampleWorld_def)

lemma resolve_nope_tidy:
  "resolveFile sampleJs servedTidy (fst (buildOrUpdateIndex sampleJs tidyWorld)) ''nope'' = Inr None"
  by (simp add: resolveFile_def tidy_sessions sample_file_id lookup_nope_tidy[OF served_tidy])

lemma resolve_nope_sample:
  "resolveFile sampleJs servedSample (fst (buildOrUpdateIndex sampleJs sampleWorld)) ''nope''
     = Inl (ReadFailed ''/s/gone.jsonl'')"
  by (simp add: resolveFile_def sample_sessions sample_file_id lookup_nope_sample[OF served_sample(1-4)])

lemma resolve_gone_sample:
  "resolveFile sampleJs servedSample (fst (buildOrUpdateIndex sampleJs sampleWorld)) ''gone''
     = Inr (Some ''/s/gone.jsonl'')"
  by (simp add: resolveFile_def sample_sessions sample_file_id lookup_gone[OF served_sample(1)])

subsection \<open>A session id that resolves to no file\<close>

lemma scanFirstLines_none:
  "\<forall>f \<in> set fs. readable w f \<and> \<not> firstLineNames js w sid f
     \<Longrightarrow> scanFirstLines js w sid fs = Inr None"
  by (induction fs) auto

lemma scanFirstLines_fails:
  "\<forall>g \<in> set pre. readable w g \<and> \<not> firstLineNames js w sid g \<Longrightarrow> \<not> readable w f
     \<Longrightarrow> scanFirstLines js w sid (pre @ f # post) = Inl (ReadFailed f)"
  by (induction pre) auto

lemma no_exact:
  "\<forall>f \<in> set (listJsonlFiles w). basename f ''.jsonl'' \<noteq> sid
     \<Longrightarrow> findFileForSession js w sid = scanFirstLines js w sid (listJsonlFiles w)"
  by (simp add: findFileForSession_def find_None_iff[THEN iffD2])

lemma no_session:
  "\<forall>s \<in> set (IndexSnapshot.sessions index). id' s \<noteq> JStr sid
     \<Longrightarrow> resolveFile js w index sid = findFileForSession js w sid"
  by (simp add: resolveFile_def find_None_iff[THEN iffD2])

lemma resolve_none:
  assumes "\<forall>s \<in> set (IndexSnapshot.sessions index). id' s \<noteq> JStr sid"
    and "\<forall>f \<in> set (listJsonlFiles w).
           basename f ''.jsonl'' \<noteq> sid \<and> readable w f \<and> \<not> firstLineNames js w sid f"
  shows "resolveFile js w index sid = Inr None"
  using assms by (simp add: no_session no_exact scanFirstLines_none)

lemma resolve_fails:
  assumes "\<forall>s \<in> set (IndexSnapshot.sessions index). id' s \<noteq> JStr sid"
    and "\<forall>g \<in> set (listJsonlFiles w). basename g ''.jsonl'' \<noteq> sid"
    and "listJsonlFiles w = pre @ f # post"
    and "\<forall>g \<in> set pre. readable w g \<and> \<not> firstLineNames js w sid g"
    and "\<not> readable w f"
  shows "resolveFile js w index sid = Inl (ReadFailed f)"
  using assms(4,5) unfolding no_session[OF assms(1)] no_exact[OF assms(2)] assms(3)
  by (rule scanFirstLines_fails)

text \<open>
  Claim C5, as amended. When \<^verbatim>\<open>getIndex\<close> yields a snapshot and the resolution of the
  session id completes without a file, \<^verbatim>\<open>getSessionTimeline\<close> returns a response whose
  summary has the id asked for, error count 1 and no messages and tool calls, with
  \<open>truncated\<close> false and exactly one event, of kind error, that describes the lookup
  failure. The resolution completes without a file when the snapshot has no session
  of that id, no listed file is named after it, and every listed file can be opened
  and has a first line that does not name it. But \<^verbatim>\<open>getSessionTimeline\<close> throws, and
  returns no response, when \<^verbatim>\<open>getIndex\<close> throws (line 423), and when the lookup throws
  (line 426): that is when the snapshot has no session of that id, no listed file is
  named after it, and the slow path reaches a listed file that cannot be opened
  before it finds one whose first line names the id. (The claim as stated says that
  it never throws.)
\<close>

theorem lookup_failure_returns:
  "(getIndex js w0 = Inr (index, w) \<and> resolveFile js w index sid = Inr found \<and> \<not> truthyStr found
      \<longrightarrow> getSessionTimeline js w0 sid = Inr (notFound js w sid, w)
          \<and> id' (summary (notFound js w sid)) = JStr sid
          \<and> errors (summary (notFound js w sid)) = 1
          \<and> messages (summary (notFound js w sid)) = 0
          \<and> toolCalls (summary (notFound js w sid)) = 0
          \<and> \<not> truncated (notFound js w sid)
          \<and> map kind (events (notFound js w sid)) = [Error]
          \<and> map text' (events (notFound js w sid)) = [Some notFoundText])
   \<and> ((\<forall>s \<in> set (IndexSnapshot.sessions index). id' s \<noteq> JStr sid)
       \<and> (\<forall>f \<in> set (listJsonlFiles w).
             basename f ''.jsonl'' \<noteq> sid \<and> readable w f \<and> \<not> firstLineNames js w sid f)
      \<longrightarrow> resolveFile js w index sid = Inr None)
   \<and> (getIndex js w0 = Inl e \<longrightarrow> getSessionTimeline js w0 sid = Inl e)
   \<and> (getIndex js w0 = Inr (index, w) \<and> resolveFile js w index sid = Inl e
      \<longrightarrow> getSessionTimeline js w0 sid = Inl e)
   \<and> ((\<forall>s \<in> set (IndexSnapshot.sessions index). id' s \<noteq> JStr sid)
       \<and> (\<forall>g \<in> set (listJsonlFiles w). basename g ''.jsonl'' \<noteq> sid)
       \<and> listJsonlFiles w = pre @ f # post
       \<and> (\<forall>g \<in> set pre. readable w g \<and> \<not> firstLineNames js w sid g)
       \<and> \<not> readable w f
      \<longrightarrow> resolveFile js w index sid = Inl (ReadFailed f))"
proof -
  have a: "getIndex js w0 = Inr (index, w) \<and> resolveFile js w index sid = Inr found
             \<and> \<not> truthyStr found
      \<longrightarrow> getSessionTimeline js w0 sid = Inr (notFound js w sid, w)
          \<and> id' (summary (notFound js w sid)) = JStr sid
          \<and> errors (summary (notFound js w sid)) = 1
          \<and> messages (summary (notFound js w sid)) = 0
          \<and> toolCalls (summary (notFound js w sid)) = 0
          \<and> \<not> truncated (notFound js w sid)
          \<and> map kind (events (notFound js w sid)) = [Error]
          \<and> map text' (events (notFound js w sid)) = [Some notFoundText]"
    by (simp add: getSessionTimeline_def notFound_def)
  have b: "(getIndex js w0 = Inl e \<longrightarrow> getSessionTimeline js w0 sid = Inl e)
     \<and> (getIndex js w0 = Inr (index, w) \<and> resolveFile js w index sid = Inl e
      \<longrightarrow> getSessionTimeline js w0 sid = Inl e)"
    by (simp add: getSessionTimeline_def)
  show ?thesis
    using a b resolve_none[of index sid w js] resolve_fails[of index sid w pre f post js]
    by blast
qed

text \<open>The id \<^verbatim>\<open>nope\<close> in three worlds: answered by the synthetic response where the one
  log file can be read; an exception where the cache directory cannot be created, and
  where a listed file cannot be opened.\<close>

theorem lookup_failure_returns_witness:
  "getSessionTimeline sampleJs tidyWorld ''nope'' = Inr (notFound sampleJs servedTidy ''nope'', servedTidy)
   \<and> errors (summary (notFound sampleJs servedTidy ''nope'')) = 1
   \<and> map kind (events (notFound sampleJs servedTidy ''nope'')) = [Error]
   \<and> getSessionTimeline sampleJs noCacheWorld ''nope'' = Inl (MkdirFailed ''/c'')
   \<and> getSessionTimeline sampleJs sampleWorld ''nope'' = Inl (ReadFailed ''/s/gone.jsonl'')"
proof -
  let ?tidy = "fst (buildOrUpdateIndex sampleJs tidyWorld)"
  let ?sample = "fst (buildOrUpdateIndex sampleJs sampleWorld)"
  have a: "getIndex sampleJs tidyWorld = Inr (?tidy, servedTidy)"
    by (simp add: getIndex_tidy servedTidy_def)
  have b: "getIndex sampleJs sampleWorld = Inr (?sample, servedSample)"
    by (simp add: getIndex_sample servedSample_def)
  have s1: "\<forall>s \<in> set (IndexSnapshot.sessions ?tidy). id' s \<noteq> JStr ''nope''"
    by (simp add: tidy_sessions sample_file_id)
  have s2: "\<forall>s \<in> set (IndexSnapshot.sessions ?sample). id' s \<noteq> JStr ''nope''"
    by (simp add: sample_sessions sample_file_id)
  have f1: "\<forall>f \<in> set (listJsonlFiles servedTidy).
             basename f ''.jsonl'' \<noteq> ''nope'' \<and> readable servedTidy f
             \<and> \<not> firstLineNames sampleJs servedTidy ''nope'' f"
    by (simp add: served_tidy basename_abc first_line_abc[OF served_tidy(3)])
  have f2: "\<forall>g \<in> set (listJsonlFiles servedSample). basename g ''.jsonl'' \<noteq> ''nope''"
    by (simp add: served_sample basename_abc basename_gone)
  have f3: "listJsonlFiles servedSample = [''/s/abc.jsonl''] @ ''/s/gone.jsonl'' # []"
    by (simp add: served_sample)
  have f4: "\<forall>g \<in> set [''/s/abc.jsonl'']. readable servedSample g
             \<and> \<not> firstLineNames sampleJs servedSample ''nope'' g"
    by (simp add: served_sample first_line_abc[OF served_sample(4)])
  have nt: "\<not> truthyStr None" by simp
  show ?thesis
    using lookup_failure_returns[where js = sampleJs and ?w0.0 = tidyWorld and index = ?tidy
        and w = servedTidy and sid = "''nope''" and found = None]
      lookup_failure_returns[where js = sampleJs and ?w0.0 = noCacheWorld
        and e = "MkdirFailed ''/c''" and sid = "''nope''"]
      lookup_failure_returns[where js = sampleJs and ?w0.0 = sampleWorld and index = ?sample
        and w = servedSample and sid = "''nope''" and e = "ReadFailed ''/s/gone.jsonl''"
        and pre = "[''/s/abc.jsonl'']" and f = "''/s/gone.jsonl''" and post = "[]"]
      a b s1 s2 f1 f2 f3 f4 served_sample(3) getIndex_noCache nt
    by simp
qed

lemma lookup_nope_noCache: "findFileForSession sampleJs noCacheWorld ''nope'' = Inr None"
  by (rule lookup_nope_tidy) (simp_all add: noCacheWorld_def tidyWorld_def sampleWorld_def)

text \<open>Against the claim as stated: in both worlds no log file resolves for the id
  \<^verbatim>\<open>nope\<close> (no listed file is named after it, no first line that can be read names it,
  the snapshot, where there is one, has no such session), and \<^verbatim>\<open>getSessionTimeline\<close>
  throws.\<close>

theorem lookup_failure_returns_counterexample:
  "find (\<lambda>f. basename f ''.jsonl'' = ''nope'') (listJsonlFiles noCacheWorld) = None
   \<and> findFileForSession sampleJs noCacheWorld ''nope'' = Inr None
   \<and> getSessionTimeline sampleJs noCacheWorld ''nope'' = Inl (MkdirFailed ''/c'')
   \<and> find (\<lambda>f. basename f ''.jsonl'' = ''nope'') (listJsonlFiles sampleWorld) = None
   \<and> map id' (IndexSnapshot.sessions (fst (buildOrUpdateIndex sampleJs sampleWorld)))
       = [JStr ''abc'']
   \<and> getSessionTimeline sampleJs sampleWorld ''nope'' = Inl (ReadFailed ''/s/gone.jsonl'')"
proof -
  have 0: "map id' (IndexSnapshot.sessions (fst (buildOrUpdateIndex sampleJs sampleWorld)))
             = [JStr ''abc'']"
    by (simp add: sample_sessions sample_file_id)
  have 1: "find (\<lambda>f. basename f ''.jsonl'' = ''nope'') (listJsonlFiles noCacheWorld) = None"
    by (rule find_nope[of _ "[''/s/abc.jsonl'']"])
       (simp_all add: noCacheWorld_def tidyWorld_def sampleWorld_def)
  have 2: "find (\<lambda>f. basename f ''.jsonl'' = ''nope'') (listJsonlFiles sampleWorld) = None"
    by (rule find_nope[of _ "[''/s/abc.jsonl'', ''/s/gone.jsonl'']"])
       (simp_all add: sampleWorld_def)
  have 3: "getSessionTimeline sampleJs noCacheWorld ''nope'' = Inl (MkdirFailed ''/c'')"
    by (simp add: getSessionTimeline_def getIndex_noCache)
  have 4: "getSessionTimeline sampleJs sampleWorld ''nope'' = Inl (ReadFailed ''/s/gone.jsonl'')"
    by (simp add: getSessionTimeline_def getIndex_sample servedSample_def[symmetric]
        resolve_nope_sample)
  show ?thesis using 0 1 2 3 4 lookup_nope_noCache by simp
qed

subsection \<open>A file that resolves and cannot be stat'ed\<close>

text \<open>
  Claim C9. If a session id resolves to a file path (through the sessions of the
  snapshot or through the lookup by file name and first line) and the \<^verbatim>\<open>stat\<close> of that
  file then fails, \<^verbatim>\<open>getSessionTimeline\<close> throws: the failure reaches the caller, and no
  synthetic error response is returned.
\<close>

theorem stat_failure_propagates:
  assumes "getIndex js w0 = Inr (index, w)"
    and "resolveFile js w index sid = Inr (Some f)" and "f \<noteq> []" and "stat w f = None"
  shows "getSessionTimeline js w0 sid = Inl (StatFailed f)"
  using assms by (simp add: getSessionTimeline_def)

text \<open>The id \<^verbatim>\<open>gone\<close> in the sample world: the file is listed, and its \<^verbatim>\<open>stat\<close> fails.\<close>

theorem stat_failure_propagates_witness:
  "getIndex sampleJs sampleWorld = Inr (fst (buildOrUpdateIndex sampleJs sampleWorld), servedSample)
   \<and> resolveFile sampleJs servedSample (fst (buildOrUpdateIndex sampleJs sampleWorld)) ''gone''
       = Inr (Some ''/s/gone.jsonl'')
   \<and> stat servedSample ''/s/gone.jsonl'' = None
   \<and> getSessionTimeline sampleJs sampleWorld ''gone'' = Inl (StatFailed ''/s/gone.jsonl'')"
proof -
  have b: "getIndex sampleJs sampleWorld = Inr (fst (buildOrUpdateIndex sampleJs sampleWorld), servedSample)"
    by (simp add: getIndex_sample servedSample_def)
  show ?thesis
    using stat_failure_propagates[OF b resolve_gone_sample _ served_sample(5)] b
      resolve_gone_sample served_sample(5)
    by simp
qed

end
